theory Spec2Isabelle
  imports Main
begin

section \<open>The lending escrow of the subscription-token repository\<close>

text \<open>
  The Solidity source of the contract \<open>LendingEscrow\<close> holds two successive texts of the
  contract body. The first one (createListing with duration bounds, updateListing,
  cancelListing, startSession, endSession with the time gate) is the simple policy; the
  second one (createListing with explicit balance and approval checks, startSession
  without duration bounds, endSession with early closure, \<open>_distributePayment\<close>,
  getActiveListings) is the prorated policy. Functions of the first text keep their
  names; functions of the second text that share a name carry the suffix \<open>_pr\<close>.

  Solidity 0.8 integers are \<open>uint256\<close> with checked arithmetic: an operation whose result
  leaves the range aborts the transaction. They are modelled as natural numbers, every
  arithmetic operation of the source going through a checked operation that returns the
  error \<open>Overflow\<close> instead. A reverted transaction returns \<open>Inl\<close> of its error and the
  state before the call stays in force (\<open>run_tx\<close>).
\<close>

subsection \<open>Values, errors and checked arithmetic\<close>

type_synonym address = nat
type_synonym uint256 = nat

datatype error =
    Overflow
  | EnforcedPause
  | NotTheLender
  | ListingNotActive
  | SessionNotActive
  | SessionNotYetEnded
  | MustListAtLeastOneUnit
  | PriceMustBeGreaterThanZero
  | DurationBelowMinimum
  | DurationExceedsMaximum
  | InvalidDurationRange
  | FewerUnitsThanRented
  | MustRentAtLeastOneUnit
  | NotEnoughUnitsAvailable
  | InsufficientPayment
  | InsufficientBalance
  | Unauthorized
  | InsufficientFunds
  | EtherTransferFailed
  | InsufficientTokenBalance
  | ContractNotApproved
  | DurationMustBePositive
  | NotAuthorizedToEndSession
  | IndexOutOfBounds
  | FeeTooHigh
  | InvalidAddress
  | NotTheOwner
  | InvalidDurationLimits

definition checked_add :: "uint256 \<Rightarrow> uint256 \<Rightarrow> error + uint256" where
  "checked_add a b = (if a + b < 2 ^ 256 then Inr (a + b) else Inl Overflow)"

definition checked_sub :: "uint256 \<Rightarrow> uint256 \<Rightarrow> error + uint256" where
  "checked_sub a b = (if b \<le> a then Inr (a - b) else Inl Overflow)"

definition checked_mul :: "uint256 \<Rightarrow> uint256 \<Rightarrow> error + uint256" where
  "checked_mul a b = (if a * b < 2 ^ 256 then Inr (a * b) else Inl Overflow)"

definition BASIS_POINTS :: uint256 where
  "BASIS_POINTS = 10000"

subsection \<open>The fee split\<close>

text \<open>
  The two lines shared by startSession of the first text
  (\<open>feeAmount = (totalCost * platformFee) / BASIS_POINTS; lenderAmount = totalCost - feeAmount\<close>)
  and by \<open>_distributePayment\<close> of the second text
  (\<open>platformAmount = (amount * platformFee) / 10000; lenderAmount = amount - platformAmount\<close>).
  The result is the pair (platform amount, lender amount).
\<close>

definition splitPayment :: "uint256 \<Rightarrow> uint256 \<Rightarrow> error + (uint256 \<times> uint256)" where
  "splitPayment amount fee =
     (case checked_mul amount fee of
        Inl e \<Rightarrow> Inl e
      | Inr product \<Rightarrow>
          (let platformAmount = product div BASIS_POINTS in
           case checked_sub amount platformAmount of
             Inl e \<Rightarrow> Inl e
           | Inr lenderAmount \<Rightarrow> Inr (platformAmount, lenderAmount)))"

subsection \<open>Structures and contract state\<close>

text \<open>
  The structs \<open>Listing\<close> and \<open>Session\<close> as the source declares them. Both have a field
  \<open>isActive\<close>; the one of \<open>Session\<close> is named \<open>sessionIsActive\<close> here.
\<close>

record Listing =
  lender :: address
  tokenId :: uint256
  pricePerUnit :: uint256
  availableUnits :: uint256
  totalUnits :: uint256
  minDuration :: uint256
  maxDuration :: uint256
  createdAt :: uint256
  isActive :: bool

record Session =
  borrower :: address
  listingId :: uint256
  units :: uint256
  startTime :: uint256
  endTime :: uint256
  totalPaid :: uint256
  sessionIsActive :: bool

text \<open>
  The storage of the contract (Solidity mappings are total, an unset key reads as the zero
  value), its own address \<open>self\<close> (\<open>address(this)\<close>), the owner and pause flag it inherits,
  and the two external ledgers its functions move value on: the unit ledger of the
  subscription token (\<open>balanceOf\<close>, \<open>isApprovedForAll\<close>) and the ether balances.
  \<open>refusesEther\<close> holds the addresses whose receive function rejects a plain transfer.
\<close>

record state =
  self :: address
  owner :: address
  paused :: bool
  listingCounter :: uint256
  sessionCounter :: uint256
  platformFee :: uint256
  minRentalDuration :: uint256
  maxRentalDuration :: uint256
  platformWallet :: address
  listings :: "uint256 \<Rightarrow> Listing"
  sessions :: "uint256 \<Rightarrow> Session"
  userListings :: "address \<Rightarrow> uint256 list"
  userSessions :: "address \<Rightarrow> uint256 list"
  balanceOf :: "address \<Rightarrow> uint256 \<Rightarrow> uint256"
  isApprovedForAll :: "address \<Rightarrow> address \<Rightarrow> bool"
  ether :: "address \<Rightarrow> uint256"
  refusesEther :: "address \<Rightarrow> bool"

definition run_tx :: "(state \<Rightarrow> error + state) \<Rightarrow> state \<Rightarrow> state" where
  "run_tx f s = (case f s of Inl e \<Rightarrow> s | Inr s' \<Rightarrow> s')"

subsection \<open>The unit ledger and ether transfers\<close>

definition moveUnits ::
  "address \<Rightarrow> address \<Rightarrow> uint256 \<Rightarrow> uint256 \<Rightarrow>
   (address \<Rightarrow> uint256 \<Rightarrow> uint256) \<Rightarrow> (address \<Rightarrow> uint256 \<Rightarrow> uint256)" where
  "moveUnits src dst batch amount bal =
     (let bal1 = bal(src := (bal src)(batch := bal src batch - amount))
      in bal1(dst := (bal1 dst)(batch := bal1 dst batch + amount)))"

text \<open>
  Modelled from the spec: the contract \<open>SubscriptionToken\<close> (SubscriptionToken.sol, the
  ERC-1155 unit ledger the escrow calls) is not among the source files. Its transfer is
  the one of the specification's Unit Ledger: \<open>transfer(from, to, batchId, quantity)\<close>
  fails with \<open>InsufficientBalance\<close> if \<open>balanceOf(from) < quantity\<close>, fails with
  \<open>Unauthorized\<close> if the caller is neither \<open>from\<close> nor an approved operator of \<open>from\<close>,
  and otherwise moves the full quantity. The caller of the ledger is given explicitly;
  in every call of the escrow it is the escrow itself.
\<close>

definition safeTransferFrom ::
  "state \<Rightarrow> address \<Rightarrow> address \<Rightarrow> address \<Rightarrow> uint256 \<Rightarrow> uint256 \<Rightarrow> error + state" where
  "safeTransferFrom s caller src dst batch amount =
     (if balanceOf s src batch < amount then Inl InsufficientBalance
      else if caller \<noteq> src \<and> \<not> isApprovedForAll s src caller then Inl Unauthorized
      else Inr (s\<lparr>balanceOf := moveUnits src dst batch amount (balanceOf s)\<rparr>))"

definition moveEther ::
  "address \<Rightarrow> address \<Rightarrow> uint256 \<Rightarrow> (address \<Rightarrow> uint256) \<Rightarrow> (address \<Rightarrow> uint256)" where
  "moveEther src dst amount bal =
     (let bal1 = bal(src := bal src - amount) in bal1(dst := bal1 dst + amount))"

text \<open>
  A payable call carries \<open>msg.value\<close> from the caller to the contract before the body runs.
\<close>

definition receiveValue :: "state \<Rightarrow> address \<Rightarrow> uint256 \<Rightarrow> error + state" where
  "receiveValue s sender val =
     (if ether s sender < val then Inl InsufficientFunds
      else Inr (s\<lparr>ether := moveEther sender (self s) val (ether s)\<rparr>))"

text \<open>
  \<open>payable(dst).transfer(amount)\<close>: aborts when the contract holds less than the amount or
  the recipient rejects it.
\<close>

definition transferEther :: "state \<Rightarrow> address \<Rightarrow> uint256 \<Rightarrow> error + state" where
  "transferEther s dst amount =
     (if ether s (self s) < amount \<or> refusesEther s dst then Inl EtherTransferFailed
      else Inr (s\<lparr>ether := moveEther (self s) dst amount (ether s)\<rparr>))"

subsection \<open>First text: listings (simple policy)\<close>

text \<open>
  Every function takes the state, \<open>msg.sender\<close> and, where the source reads it,
  \<open>block.timestamp\<close> (\<open>now\<close>) and \<open>msg.value\<close> (\<open>val\<close>). Modifiers are checked in the order of
  the function header. Each modelled call is a transaction of its own, entered with the
  reentrancy lock free, so \<open>nonReentrant\<close> never fires; events are not part of the state.
  The token whitelist, the two emergency withdrawals of the owner (which act on the
  external ledgers only), the ERC-1155 receiver hooks and the read-only getters other than
  getActiveListings are left out.
\<close>

definition createListing ::
  "state \<Rightarrow> address \<Rightarrow> uint256 \<Rightarrow> uint256 \<Rightarrow> uint256 \<Rightarrow> uint256 \<Rightarrow> uint256 \<Rightarrow> uint256
   \<Rightarrow> error + state" where
  "createListing s sender now tid price n minD maxD =
     (if paused s then Inl EnforcedPause
      else if \<not> n > 0 then Inl MustListAtLeastOneUnit
      else if \<not> price > 0 then Inl PriceMustBeGreaterThanZero
      else if \<not> minD \<ge> minRentalDuration s then Inl DurationBelowMinimum
      else if \<not> maxD \<le> maxRentalDuration s then Inl DurationExceedsMaximum
      else if \<not> minD \<le> maxD then Inl InvalidDurationRange
      else case safeTransferFrom s (self s) sender (self s) tid n of
        Inl e \<Rightarrow> Inl e
      | Inr s1 \<Rightarrow>
         (case checked_add (listingCounter s1) 1 of
            Inl e \<Rightarrow> Inl e
          | Inr lid \<Rightarrow>
              Inr (s1\<lparr>listingCounter := lid,
                      listings := (listings s1)(lid :=
                        \<lparr>lender = sender, tokenId = tid, pricePerUnit = price,
                         availableUnits = n, totalUnits = n, minDuration = minD,
                         maxDuration = maxD, createdAt = now, isActive = True\<rparr>),
                      userListings := (userListings s1)(sender := userListings s1 sender @ [lid])\<rparr>)))"

definition updateListing ::
  "state \<Rightarrow> address \<Rightarrow> uint256 \<Rightarrow> uint256 \<Rightarrow> uint256 \<Rightarrow> uint256 \<Rightarrow> uint256 \<Rightarrow> error + state" where
  "updateListing s sender lid newPrice newUnits newMinD newMaxD =
     (let listing = listings s lid in
      if lender listing \<noteq> sender then Inl NotTheLender
      else if \<not> isActive listing then Inl ListingNotActive
      else if paused s then Inl EnforcedPause
      else if \<not> newPrice > 0 then Inl PriceMustBeGreaterThanZero
      else if \<not> newMinD \<ge> minRentalDuration s then Inl DurationBelowMinimum
      else if \<not> newMaxD \<le> maxRentalDuration s then Inl DurationExceedsMaximum
      else if \<not> newMinD \<le> newMaxD then Inl InvalidDurationRange
      else case checked_sub (totalUnits listing) (availableUnits listing) of
        Inl e \<Rightarrow> Inl e
      | Inr rentedUnits \<Rightarrow>
         (if \<not> newUnits \<ge> rentedUnits then Inl FewerUnitsThanRented
          else case (if newUnits > totalUnits listing
                     then safeTransferFrom s (self s) sender (self s) (tokenId listing)
                            (newUnits - totalUnits listing)
                     else Inr s) of
            Inl e \<Rightarrow> Inl e
          | Inr s1 \<Rightarrow>
              Inr (s1\<lparr>listings := (listings s1)(lid :=
                        listing\<lparr>pricePerUnit := newPrice,
                                availableUnits := newUnits - rentedUnits,
                                totalUnits := newUnits,
                                minDuration := newMinD,
                                maxDuration := newMaxD\<rparr>)\<rparr>)))"

definition cancelListing :: "state \<Rightarrow> address \<Rightarrow> uint256 \<Rightarrow> error + state" where
  "cancelListing s sender lid =
     (let listing = listings s lid in
      if lender listing \<noteq> sender then Inl NotTheLender
      else if \<not> isActive listing then Inl ListingNotActive
      else
        (let s1 = s\<lparr>listings := (listings s)(lid := listing\<lparr>isActive := False\<rparr>)\<rparr> in
         if availableUnits listing > 0
         then safeTransferFrom s1 (self s1) (self s1) sender (tokenId listing)
                (availableUnits listing)
         else Inr s1))"

subsection \<open>First text: sessions (simple policy)\<close>

definition startSession ::
  "state \<Rightarrow> address \<Rightarrow> uint256 \<Rightarrow> uint256 \<Rightarrow> uint256 \<Rightarrow> uint256 \<Rightarrow> uint256 \<Rightarrow> error + state" where
  "startSession s0 sender val now lid n duration =
     (case receiveValue s0 sender val of
        Inl e \<Rightarrow> Inl e
      | Inr s \<Rightarrow>
     (let listing = listings s lid in
      if paused s then Inl EnforcedPause
      else if \<not> isActive listing then Inl ListingNotActive
      else if \<not> n > 0 then Inl MustRentAtLeastOneUnit
      else if \<not> n \<le> availableUnits listing then Inl NotEnoughUnitsAvailable
      else if \<not> duration \<ge> minDuration listing then Inl DurationBelowMinimum
      else if \<not> duration \<le> maxDuration listing then Inl DurationExceedsMaximum
      else case checked_mul (pricePerUnit listing) n of
        Inl e \<Rightarrow> Inl e
      | Inr priceUnits \<Rightarrow>
     (case checked_mul priceUnits duration of
        Inl e \<Rightarrow> Inl e
      | Inr totalCost \<Rightarrow>
     (if \<not> val \<ge> totalCost then Inl InsufficientPayment
      else case splitPayment totalCost (platformFee s) of
        Inl e \<Rightarrow> Inl e
      | Inr (feeAmount, lenderAmount) \<Rightarrow>
     (case transferEther s (lender listing) lenderAmount of
        Inl e \<Rightarrow> Inl e
      | Inr s1 \<Rightarrow>
     (case (if feeAmount > 0 then transferEther s1 (platformWallet s1) feeAmount else Inr s1) of
        Inl e \<Rightarrow> Inl e
      | Inr s2 \<Rightarrow>
     (case (if val > totalCost then transferEther s2 sender (val - totalCost) else Inr s2) of
        Inl e \<Rightarrow> Inl e
      | Inr s3 \<Rightarrow>
     (case checked_add (sessionCounter s3) 1 of
        Inl e \<Rightarrow> Inl e
      | Inr sid \<Rightarrow>
     (case checked_add now duration of
        Inl e \<Rightarrow> Inl e
      | Inr finish \<Rightarrow>
     (let s4 = s3\<lparr>sessionCounter := sid,
                  sessions := (sessions s3)(sid :=
                    \<lparr>borrower = sender, listingId = lid, units = n, startTime = now,
                     endTime = finish, totalPaid = totalCost, sessionIsActive = True\<rparr>)\<rparr>
      in case checked_sub (availableUnits (listings s4 lid)) n of
        Inl e \<Rightarrow> Inl e
      | Inr remaining \<Rightarrow>
     (let s5 = s4\<lparr>listings := (listings s4)(lid :=
                    (listings s4 lid)\<lparr>availableUnits := remaining\<rparr>)\<rparr>
      in case safeTransferFrom s5 (self s5) (self s5) sender (tokenId (listings s5 lid)) n of
        Inl e \<Rightarrow> Inl e
      | Inr s6 \<Rightarrow>
          Inr (s6\<lparr>userSessions :=
                 (userSessions s6)(sender := userSessions s6 sender @ [sid])\<rparr>))))))))))))"

definition endSession :: "state \<Rightarrow> address \<Rightarrow> uint256 \<Rightarrow> uint256 \<Rightarrow> error + state" where
  "endSession s sender now sid =
     (let session = sessions s sid in
      if \<not> sessionIsActive session then Inl SessionNotActive
      else if \<not> now \<ge> endTime session then Inl SessionNotYetEnded
      else
        (let s1 = s\<lparr>sessions := (sessions s)(sid := session\<lparr>sessionIsActive := False\<rparr>)\<rparr>;
             lid = listingId session;
             listing = listings s1 lid
         in case safeTransferFrom s1 (self s1) sender (lender listing) (tokenId listing)
                   (units session) of
              Inl e \<Rightarrow> Inl e
            | Inr s2 \<Rightarrow>
                (if isActive (listings s2 lid)
                 then case checked_add (availableUnits (listings s2 lid)) (units session) of
                        Inl e \<Rightarrow> Inl e
                      | Inr available \<Rightarrow>
                          Inr (s2\<lparr>listings := (listings s2)(lid :=
                                 (listings s2 lid)\<lparr>availableUnits := available\<rparr>)\<rparr>)
                 else Inr s2)))"

subsection \<open>Second text: listings and sessions (prorated policy)\<close>

text \<open>
  The struct literals of the second text name the fields \<open>lender\<close>, \<open>tokenId\<close>,
  \<open>pricePerUnit\<close>, \<open>availableUnits\<close>, \<open>isActive\<close> of a listing and \<open>borrower\<close>, \<open>listingId\<close>,
  \<open>units\<close>, \<open>startTime\<close>, \<open>endTime\<close>, \<open>isActive\<close> of a session; the remaining fields of the
  declared structs are never written by the second text and stay at zero.
\<close>

definition createListing_pr ::
  "state \<Rightarrow> address \<Rightarrow> uint256 \<Rightarrow> uint256 \<Rightarrow> uint256 \<Rightarrow> error + state" where
  "createListing_pr s sender tid price n =
     (if \<not> n > 0 then Inl MustListAtLeastOneUnit
      else if \<not> price > 0 then Inl PriceMustBeGreaterThanZero
      else if \<not> balanceOf s sender tid \<ge> n then Inl InsufficientTokenBalance
      else if \<not> isApprovedForAll s sender (self s) then Inl ContractNotApproved
      else case checked_add (listingCounter s) 1 of
        Inl e \<Rightarrow> Inl e
      | Inr lid \<Rightarrow>
          Inr (s\<lparr>listingCounter := lid,
                 listings := (listings s)(lid :=
                   \<lparr>lender = sender, tokenId = tid, pricePerUnit = price,
                    availableUnits = n, totalUnits = 0, minDuration = 0,
                    maxDuration = 0, createdAt = 0, isActive = True\<rparr>),
                 userListings := (userListings s)(sender := userListings s sender @ [lid])\<rparr>))"

definition cancelListing_pr :: "state \<Rightarrow> address \<Rightarrow> uint256 \<Rightarrow> error + state" where
  "cancelListing_pr s sender lid =
     (if lender (listings s lid) \<noteq> sender then Inl NotTheLender
      else if \<not> isActive (listings s lid) then Inl ListingNotActive
      else Inr (s\<lparr>listings := (listings s)(lid := (listings s lid)\<lparr>isActive := False\<rparr>)\<rparr>))"

definition distributePayment :: "state \<Rightarrow> address \<Rightarrow> uint256 \<Rightarrow> error + state" where
  "distributePayment s lenderAddr amount =
     (case splitPayment amount (platformFee s) of
        Inl e \<Rightarrow> Inl e
      | Inr (platformAmount, lenderAmount) \<Rightarrow>
         (case (if platformAmount > 0 then transferEther s (platformWallet s) platformAmount
                else Inr s) of
            Inl e \<Rightarrow> Inl e
          | Inr s1 \<Rightarrow>
              (if lenderAmount > 0 then transferEther s1 lenderAddr lenderAmount else Inr s1)))"

definition startSession_pr ::
  "state \<Rightarrow> address \<Rightarrow> uint256 \<Rightarrow> uint256 \<Rightarrow> uint256 \<Rightarrow> uint256 \<Rightarrow> uint256 \<Rightarrow> error + state" where
  "startSession_pr s0 sender val now lid n duration =
     (case receiveValue s0 sender val of
        Inl e \<Rightarrow> Inl e
      | Inr s \<Rightarrow>
     (let listing = listings s lid in
      if \<not> isActive listing then Inl ListingNotActive
      else if \<not> n > 0 then Inl MustRentAtLeastOneUnit
      else if \<not> n \<le> availableUnits listing then Inl NotEnoughUnitsAvailable
      else if \<not> duration > 0 then Inl DurationMustBePositive
      else case checked_mul (pricePerUnit listing) n of
        Inl e \<Rightarrow> Inl e
      | Inr priceUnits \<Rightarrow>
     (case checked_mul priceUnits duration of
        Inl e \<Rightarrow> Inl e
      | Inr totalPrice \<Rightarrow>
     (if \<not> val \<ge> totalPrice then Inl InsufficientPayment
      else case safeTransferFrom s (self s) (lender listing) (self s) (tokenId listing) n of
        Inl e \<Rightarrow> Inl e
      | Inr s1 \<Rightarrow>
     (case checked_sub (availableUnits (listings s1 lid)) n of
        Inl e \<Rightarrow> Inl e
      | Inr remaining \<Rightarrow>
     (let s2 = s1\<lparr>listings := (listings s1)(lid :=
                    (listings s1 lid)\<lparr>availableUnits := remaining\<rparr>)\<rparr>
      in case checked_add (sessionCounter s2) 1 of
        Inl e \<Rightarrow> Inl e
      | Inr sid \<Rightarrow>
     (case checked_add now duration of
        Inl e \<Rightarrow> Inl e
      | Inr finish \<Rightarrow>
     (let s3 = s2\<lparr>sessionCounter := sid,
                  sessions := (sessions s2)(sid :=
                    \<lparr>borrower = sender, listingId = lid, units = n, startTime = now,
                     endTime = finish, totalPaid = 0, sessionIsActive = True\<rparr>),
                  userSessions := (userSessions s2)(sender := userSessions s2 sender @ [sid])\<rparr>
      in case distributePayment s3 (lender (listings s3 lid)) totalPrice of
        Inl e \<Rightarrow> Inl e
      | Inr s4 \<Rightarrow>
          (if val > totalPrice then transferEther s4 sender (val - totalPrice)
           else Inr s4)))))))))"

text \<open>
  The amounts endSession of the second text computes before it moves anything: the cost of
  the whole booked window (\<open>totalPaid\<close>) and of the window used up to \<open>now\<close> (\<open>amountOwed\<close>).
\<close>

definition settlement :: "state \<Rightarrow> uint256 \<Rightarrow> uint256 \<Rightarrow> error + (uint256 \<times> uint256)" where
  "settlement s now sid =
     (let session = sessions s sid; listing = listings s (listingId session) in
      case checked_sub (endTime session) (startTime session) of
        Inl e \<Rightarrow> Inl e
      | Inr booked \<Rightarrow>
     (case (if now > endTime session then Inr booked
            else checked_sub now (startTime session)) of
        Inl e \<Rightarrow> Inl e
      | Inr actualDuration \<Rightarrow>
     (case checked_mul (pricePerUnit listing) (units session) of
        Inl e \<Rightarrow> Inl e
      | Inr priceUnits \<Rightarrow>
     (case checked_mul priceUnits booked of
        Inl e \<Rightarrow> Inl e
      | Inr paid \<Rightarrow>
     (case checked_mul priceUnits actualDuration of
        Inl e \<Rightarrow> Inl e
      | Inr amountOwed \<Rightarrow> Inr (paid, amountOwed))))))"

definition endSession_pr :: "state \<Rightarrow> address \<Rightarrow> uint256 \<Rightarrow> uint256 \<Rightarrow> error + state" where
  "endSession_pr s sender now sid =
     (let session = sessions s sid in
      if \<not> sessionIsActive session then Inl SessionNotActive
      else if \<not> (sender = borrower session \<or> sender = owner s)
           then Inl NotAuthorizedToEndSession
      else
        (let s1 = s\<lparr>sessions := (sessions s)(sid := session\<lparr>sessionIsActive := False\<rparr>)\<rparr>;
             listing = listings s1 (listingId session)
         in case settlement s1 now sid of
              Inl e \<Rightarrow> Inl e
            | Inr (paid, amountOwed) \<Rightarrow>
         (case safeTransferFrom s1 (self s1) (self s1) (lender listing) (tokenId listing)
                 (units session) of
            Inl e \<Rightarrow> Inl e
          | Inr s2 \<Rightarrow>
             (if amountOwed < paid
              then (case checked_sub paid amountOwed of
                 Inl e \<Rightarrow> Inl e
               | Inr refundAmount \<Rightarrow>
                 (case splitPayment refundAmount (platformFee s2) of
                    Inl e \<Rightarrow> Inl e
                  | Inr (platformRefund, lenderRefund) \<Rightarrow>
                     (case (if lenderRefund > 0
                            then transferEther s2 (lender listing) lenderRefund
                            else Inr s2) of
                        Inl e \<Rightarrow> Inl e
                      | Inr s3 \<Rightarrow>
                          (if platformRefund > 0
                           then transferEther s3 (platformWallet s3) platformRefund
                           else Inr s3))))
              else Inr s2))))"

subsection \<open>Second text: the page of active listings\<close>

definition zeroListing :: Listing where
  "zeroListing = \<lparr>lender = 0, tokenId = 0, pricePerUnit = 0, availableUnits = 0,
                  totalUnits = 0, minDuration = 0, maxDuration = 0, createdAt = 0,
                  isActive = False\<rparr>"

definition zeroSession :: Session where
  "zeroSession = \<lparr>borrower = 0, listingId = 0, units = 0, startTime = 0, endTime = 0,
                  totalPaid = 0, sessionIsActive = False\<rparr>"

text \<open>The first loop: \<open>for (i = first; i <= max; i++) if (listings[i].isActive) count++\<close>.\<close>

function countActive :: "state \<Rightarrow> uint256 \<Rightarrow> uint256 \<Rightarrow> uint256 \<Rightarrow> error + uint256" where
  "countActive s mx i count =
     (if i \<le> mx
      then (case (if isActive (listings s i) then checked_add count 1 else Inr count) of
              Inl e \<Rightarrow> Inl e
            | Inr count' \<Rightarrow>
                (case checked_add i 1 of
                   Inl e \<Rightarrow> Inl e
                 | Inr i' \<Rightarrow> countActive s mx i' count'))
      else Inr count)"
  by pat_completeness auto
termination
  by (relation "measure (\<lambda>(s, mx, i, count). Suc mx - i)")
     (auto simp: checked_add_def split: if_splits)

declare countActive.simps [simp del]

text \<open>
  The second loop writes each active listing at \<open>result[index]\<close>; a write past the end of
  the array aborts.
\<close>

function fillActive ::
  "state \<Rightarrow> uint256 \<Rightarrow> uint256 \<Rightarrow> uint256 \<Rightarrow> Listing list \<Rightarrow> error + Listing list" where
  "fillActive s mx i index result =
     (if i \<le> mx
      then (case (if isActive (listings s i)
                  then (if index < length result
                        then (case checked_add index 1 of
                                Inl e \<Rightarrow> Inl e
                              | Inr index' \<Rightarrow> Inr (result[index := listings s i], index'))
                        else Inl IndexOutOfBounds)
                  else Inr (result, index)) of
              Inl e \<Rightarrow> Inl e
            | Inr (result', index') \<Rightarrow>
                (case checked_add i 1 of
                   Inl e \<Rightarrow> Inl e
                 | Inr i' \<Rightarrow> fillActive s mx i' index' result'))
      else Inr result)"
  by pat_completeness auto
termination
  by (relation "measure (\<lambda>(s, mx, i, index, result). Suc mx - i)")
     (auto simp: checked_add_def split: if_splits)

declare fillActive.simps [simp del]

definition getActiveListings :: "state \<Rightarrow> uint256 \<Rightarrow> uint256 \<Rightarrow> error + Listing list" where
  "getActiveListings s offset limit =
     (case checked_add offset limit of
        Inl e \<Rightarrow> Inl e
      | Inr upper \<Rightarrow>
         (let mx = (if upper > listingCounter s then listingCounter s else upper) in
          case checked_add offset 1 of
            Inl e \<Rightarrow> Inl e
          | Inr first \<Rightarrow>
             (case countActive s mx first 0 of
                Inl e \<Rightarrow> Inl e
              | Inr count \<Rightarrow> fillActive s mx first 0 (replicate count zeroListing))))"

subsection \<open>Deployment and administration (first text)\<close>

text \<open>
  The constructor sets the fee and the wallet; the duration limits start at one day and
  365 days, the counters at zero and every mapping empty. The ledgers the contract is
  deployed into are given.
\<close>

definition constructor ::
  "address \<Rightarrow> address \<Rightarrow> address \<Rightarrow> address \<Rightarrow> uint256 \<Rightarrow>
   (address \<Rightarrow> uint256 \<Rightarrow> uint256) \<Rightarrow> (address \<Rightarrow> address \<Rightarrow> bool) \<Rightarrow>
   (address \<Rightarrow> uint256) \<Rightarrow> (address \<Rightarrow> bool) \<Rightarrow> error + state" where
  "constructor selfAddr deployer subscriptionToken wallet fee bal appr eth refusing =
     (if subscriptionToken = 0 then Inl InvalidAddress
      else if wallet = 0 then Inl InvalidAddress
      else if \<not> fee < BASIS_POINTS then Inl FeeTooHigh
      else Inr \<lparr>self = selfAddr, owner = deployer, paused = False,
                listingCounter = 0, sessionCounter = 0, platformFee = fee,
                minRentalDuration = 86400, maxRentalDuration = 365 * 86400,
                platformWallet = wallet,
                listings = (\<lambda>i. zeroListing), sessions = (\<lambda>i. zeroSession),
                userListings = (\<lambda>a. []), userSessions = (\<lambda>a. []),
                balanceOf = bal, isApprovedForAll = appr,
                ether = eth, refusesEther = refusing\<rparr>)"

definition updatePlatformFee :: "state \<Rightarrow> address \<Rightarrow> uint256 \<Rightarrow> error + state" where
  "updatePlatformFee s sender newFee =
     (if sender \<noteq> owner s then Inl NotTheOwner
      else if \<not> newFee < BASIS_POINTS then Inl FeeTooHigh
      else Inr (s\<lparr>platformFee := newFee\<rparr>))"

definition updatePlatformWallet :: "state \<Rightarrow> address \<Rightarrow> address \<Rightarrow> error + state" where
  "updatePlatformWallet s sender newWallet =
     (if sender \<noteq> owner s then Inl NotTheOwner
      else if newWallet = 0 then Inl InvalidAddress
      else Inr (s\<lparr>platformWallet := newWallet\<rparr>))"

definition updateRentalDurationLimits ::
  "state \<Rightarrow> address \<Rightarrow> uint256 \<Rightarrow> uint256 \<Rightarrow> error + state" where
  "updateRentalDurationLimits s sender lo hi =
     (if sender \<noteq> owner s then Inl NotTheOwner
      else if \<not> lo > 0 then Inl InvalidDurationLimits
      else if \<not> hi > lo then Inl InvalidDurationLimits
      else Inr (s\<lparr>minRentalDuration := lo, maxRentalDuration := hi\<rparr>))"

definition pause :: "state \<Rightarrow> address \<Rightarrow> error + state" where
  "pause s sender =
     (if sender \<noteq> owner s then Inl NotTheOwner
      else if paused s then Inl EnforcedPause
      else Inr (s\<lparr>paused := True\<rparr>))"

definition unpause :: "state \<Rightarrow> address \<Rightarrow> error + state" where
  "unpause s sender =
     (if sender \<noteq> owner s then Inl NotTheOwner
      else if \<not> paused s then Inl EnforcedPause
      else Inr (s\<lparr>paused := False\<rparr>))"

subsection \<open>Reachable states of the first text\<close>

text \<open>
  A state is reachable when it is the state after deployment or follows a reachable state
  by a successful call of the first text. Between two calls the holders of units and of
  ether act on the two ledgers on their own (mint, transfer, approve, pay), which the rule
  \<open>ledgers\<close> covers by allowing any ledger contents.
\<close>

inductive reachable :: "state \<Rightarrow> bool" where
  deployed:
    "constructor selfAddr deployer token wallet fee bal appr eth refusing = Inr s
     \<Longrightarrow> reachable s"
| ledgers:
    "reachable s \<Longrightarrow>
     reachable (s\<lparr>balanceOf := bal, isApprovedForAll := appr, ether := eth,
                 refusesEther := refusing\<rparr>)"
| created:
    "reachable s \<Longrightarrow> createListing s sender now tid price n minD maxD = Inr s'
     \<Longrightarrow> reachable s'"
| updated:
    "reachable s \<Longrightarrow> updateListing s sender lid newPrice newUnits newMinD newMaxD = Inr s'
     \<Longrightarrow> reachable s'"
| cancelled:
    "reachable s \<Longrightarrow> cancelListing s sender lid = Inr s' \<Longrightarrow> reachable s'"
| started:
    "reachable s \<Longrightarrow> startSession s sender val now lid n duration = Inr s'
     \<Longrightarrow> reachable s'"
| ended:
    "reachable s \<Longrightarrow> endSession s sender now sid = Inr s' \<Longrightarrow> reachable s'"
| fee_updated:
    "reachable s \<Longrightarrow> updatePlatformFee s sender newFee = Inr s' \<Longrightarrow> reachable s'"
| wallet_updated:
    "reachable s \<Longrightarrow> updatePlatformWallet s sender newWallet = Inr s' \<Longrightarrow> reachable s'"
| limits_updated:
    "reachable s \<Longrightarrow> updateRentalDurationLimits s sender lo hi = Inr s' \<Longrightarrow> reachable s'"
| pause_set:
    "reachable s \<Longrightarrow> pause s sender = Inr s' \<Longrightarrow> reachable s'"
| pause_cleared:
    "reachable s \<Longrightarrow> unpause s sender = Inr s' \<Longrightarrow> reachable s'"

text \<open>
  The units of a listing that are out on open sessions: the sum of \<open>units\<close> over the
  sessions allocated so far that are active and reference the listing.
\<close>

definition unitsOut :: "Session \<Rightarrow> uint256 \<Rightarrow> uint256" where
  "unitsOut session lid =
     (if sessionIsActive session \<and> listingId session = lid then units session else 0)"

definition rentedUnits :: "state \<Rightarrow> uint256 \<Rightarrow> uint256" where
  "rentedUnits s lid = (\<Sum>i \<leftarrow> [1..<Suc (sessionCounter s)]. unitsOut (sessions s i) lid)"

subsection \<open>A concrete run\<close>

text \<open>
  A deployment used to evaluate the functions on concrete inputs: the engine has address
  100, the owner and platform wallet address 1, the fee is 500 basis points; the lender
  (address 2) holds 10 units of batch 7, a bystander (address 4) holds 5, both have
  approved the engine; the borrower (address 3) holds 1000000 wei and no units.
\<close>

definition scenario_deployed :: state where
  "scenario_deployed =
     \<lparr>self = 100, owner = 1, paused = False, listingCounter = 0, sessionCounter = 0,
      platformFee = 500, minRentalDuration = 86400, maxRentalDuration = 365 * 86400,
      platformWallet = 1,
      listings = (\<lambda>i. zeroListing), sessions = (\<lambda>i. zeroSession),
      userListings = (\<lambda>a. []), userSessions = (\<lambda>a. []),
      balanceOf = (\<lambda>a t. if t = 7 then (if a = 2 then 10 else if a = 4 then 5 else 0) else 0),
      isApprovedForAll = (\<lambda>a b. (a = 2 \<or> a = 4) \<and> b = 100),
      ether = (\<lambda>a. if a = 3 then 1000000 else 0),
      refusesEther = (\<lambda>a. False)\<rparr>"

text \<open>The lender lists the 10 units at 1 wei per unit and second, for one to ten days.\<close>

definition scenario_listed :: state where
  "scenario_listed =
     run_tx (\<lambda>s. createListing s 2 1000 7 1 10 86400 864000) scenario_deployed"

text \<open>The borrower rents 2 units for one day at time 2000, sending 200000 wei.\<close>

definition scenario_rented :: state where
  "scenario_rented = run_tx (\<lambda>s. startSession s 3 200000 2000 1 2 86400) scenario_listed"

text \<open>
  The borrower approves the engine on the unit ledger (a call to the ledger, not to the
  engine), and then closes the session at its end time 88400.
\<close>

definition scenario_approved :: state where
  "scenario_approved =
     scenario_rented\<lparr>isApprovedForAll := (\<lambda>a b. (a = 2 \<or> a = 3 \<or> a = 4) \<and> b = 100)\<rparr>"

definition scenario_returned :: state where
  "scenario_returned = run_tx (\<lambda>s. endSession s 3 88400 1) scenario_approved"

text \<open>
  The other order: the lender cancels the listing while the session is open, and the
  borrower closes the session afterwards.
\<close>

definition scenario_cancelled :: state where
  "scenario_cancelled = run_tx (\<lambda>s. cancelListing s 2 1) scenario_approved"

definition scenario_closed :: state where
  "scenario_closed = run_tx (\<lambda>s. endSession s 3 88400 1) scenario_cancelled"

text \<open>
  A third order: the bystander, who is neither the borrower nor the owner, closes the
  borrower's session with units of its own.
\<close>

definition scenario_bystander :: state where
  "scenario_bystander = run_tx (\<lambda>s. endSession s 4 88400 1) scenario_rented"

text \<open>
  A run of the second text. The engine has received 6000 wei through its receive
  function. The lender lists 1 unit at 100 wei per second; the borrower books 100 seconds
  at time 2000, paying 10000 wei, and closes the session at time 2040.
\<close>

definition scenario_pr_deployed :: state where
  "scenario_pr_deployed =
     scenario_deployed\<lparr>ether := (\<lambda>a. if a = 3 then 1000000 else if a = 100 then 6000 else 0)\<rparr>"

definition scenario_pr_listed :: state where
  "scenario_pr_listed = run_tx (\<lambda>s. createListing_pr s 2 7 100 1) scenario_pr_deployed"

definition scenario_pr_rented :: state where
  "scenario_pr_rented =
     run_tx (\<lambda>s. startSession_pr s 3 10000 2000 1 1 100) scenario_pr_listed"

definition scenario_pr_closed :: state where
  "scenario_pr_closed = run_tx (\<lambda>s. endSession_pr s 3 2040 1) scenario_pr_rented"

text \<open>A state with three listing ids allocated, of which the second is cancelled.\<close>

definition scenario_page :: state where
  "scenario_page =
     scenario_deployed\<lparr>listingCounter := 3,
        listings := (\<lambda>i. if i = 1 \<or> i = 3
                         then zeroListing\<lparr>lender := 2, tokenId := 7, pricePerUnit := i,
                                           availableUnits := 5, isActive := True\<rparr>
                         else if i = 2
                         then zeroListing\<lparr>lender := 2, tokenId := 7, pricePerUnit := i,
                                           availableUnits := 5\<rparr>
                         else zeroListing)\<rparr>"

text \<open>
  The accounting invariant of the first text: every listing has \<open>availableUnits \<le>
  totalUnits\<close>; the difference equals the rented units while the listing is active and
  bounds them from above once it is cancelled; ids beyond the listing counter hold the
  zero listing; and only sessions with an allocated id are active.
\<close>

definition accounting_inv :: "state \<Rightarrow> bool" where
  "accounting_inv s \<longleftrightarrow>
     (\<forall>lid. availableUnits (listings s lid) \<le> totalUnits (listings s lid)
        \<and> (isActive (listings s lid) \<longrightarrow>
             totalUnits (listings s lid) - availableUnits (listings s lid) = rentedUnits s lid)
        \<and> rentedUnits s lid \<le> totalUnits (listings s lid) - availableUnits (listings s lid))
     \<and> (\<forall>lid. listingCounter s < lid \<longrightarrow> listings s lid = zeroListing)
     \<and> (\<forall>sid. sessionIsActive (sessions s sid) \<longrightarrow> 1 \<le> sid \<and> sid \<le> sessionCounter s)"

text \<open>
  The same run of the second text on the plain deployment, where the engine holds no
  ether of its own.
\<close>

definition scenario_pr_plain_listed :: state where
  "scenario_pr_plain_listed = run_tx (\<lambda>s. createListing_pr s 2 7 100 1) scenario_deployed"

definition scenario_pr_plain_rented :: state where
  "scenario_pr_plain_rented =
     run_tx (\<lambda>s. startSession_pr s 3 10000 2000 1 1 100) scenario_pr_plain_listed"

section \<open>Properties\<close>

subsection \<open>The fee split is exact\<close>

lemma fee_share_le:
  assumes "fee < (10000::nat)"
  shows "amount * fee div 10000 \<le> amount"
proof -
  have "amount * fee div 10000 \<le> amount * 10000 div 10000"
    using assms by (intro div_le_mono mult_le_mono2) simp
  then show ?thesis by simp
qed

lemma splitPayment_value:
  assumes "fee < 10000" and "amount * fee < 2 ^ 256"
  shows "splitPayment amount fee =
           Inr (amount * fee div 10000, amount - amount * fee div 10000)"
  using assms fee_share_le [of fee amount]
  by (simp add: splitPayment_def checked_mul_def checked_sub_def BASIS_POINTS_def Let_def)

text \<open>
  Claim C3. For every amount and every fee rate below 10000 basis points, the split pays
  the platform \<open>floor(amount * fee / 10000)\<close> and the lender the rest, and the two amounts
  add up to the amount exactly. The product \<open>amount * fee\<close> is computed in checked
  \<open>uint256\<close> arithmetic: when it leaves the range the split aborts with \<open>Overflow\<close> and
  yields no amounts at all.
\<close>

theorem splitPayment_exact:
  "fee < 10000 \<Longrightarrow>
     (if amount * fee < 2 ^ 256
      then \<exists>platformAmount lenderAmount.
             splitPayment amount fee = Inr (platformAmount, lenderAmount)
             \<and> platformAmount = amount * fee div 10000
             \<and> lenderAmount = amount - platformAmount
             \<and> platformAmount + lenderAmount = amount
      else splitPayment amount fee = Inl Overflow)"
proof -
  assume fee: "fee < 10000"
  show ?thesis
  proof (cases "amount * fee < 2 ^ 256")
    case True
    then show ?thesis
      using splitPayment_value [OF fee True] fee_share_le [OF fee, of amount] by simp
  next
    case False
    then show ?thesis
      by (simp add: splitPayment_def checked_mul_def)
  qed
qed

theorem splitPayment_exact_witness:
  "(500::nat) < 10000 \<and> splitPayment 14 500 = Inr (0, 14)
   \<and> splitPayment 10001 500 = Inr (500, 9501)"
  using splitPayment_exact [of 500 14] splitPayment_exact [of 500 10001]
  by simp

subsection \<open>Steps of the functions\<close>

lemma checked_add_Inr: "checked_add a b = Inr c \<longleftrightarrow> a + b < 2 ^ 256 \<and> c = a + b"
  by (auto simp: checked_add_def)

lemma checked_sub_Inr: "checked_sub a b = Inr c \<longleftrightarrow> b \<le> a \<and> c = a - b"
  by (auto simp: checked_sub_def)

lemma checked_mul_Inr: "checked_mul a b = Inr c \<longleftrightarrow> a * b < 2 ^ 256 \<and> c = a * b"
  by (auto simp: checked_mul_def)

lemma splitPayment_Inr:
  "splitPayment amount fee = Inr (p, l) \<longleftrightarrow>
     amount * fee < 2 ^ 256 \<and> p = amount * fee div 10000 \<and> p \<le> amount \<and> l = amount - p"
  by (auto simp: splitPayment_def checked_mul_def checked_sub_def BASIS_POINTS_def Let_def)

lemma safeTransferFrom_Inr:
  "safeTransferFrom s caller src dst batch amount = Inr s' \<longleftrightarrow>
     amount \<le> balanceOf s src batch \<and> (caller = src \<or> isApprovedForAll s src caller)
     \<and> s' = s\<lparr>balanceOf := moveUnits src dst batch amount (balanceOf s)\<rparr>"
  by (auto simp: safeTransferFrom_def)

lemma receiveValue_Inr:
  "receiveValue s sender val = Inr s' \<longleftrightarrow>
     val \<le> ether s sender \<and> s' = s\<lparr>ether := moveEther sender (self s) val (ether s)\<rparr>"
  by (auto simp: receiveValue_def)

lemma transferEther_Inr:
  "transferEther s dst amount = Inr s' \<longleftrightarrow>
     amount \<le> ether s (self s) \<and> \<not> refusesEther s dst
     \<and> s' = s\<lparr>ether := moveEther (self s) dst amount (ether s)\<rparr>"
  by (auto simp: transferEther_def)

lemma moveEther_zero: "moveEther a b 0 bal = bal"
  by (simp add: moveEther_def)

lemma moveUnits_zero: "moveUnits a b t 0 bal = bal"
  by (simp add: moveUnits_def)

lemma moveUnits_apply:
  "moveUnits src dst batch amount bal a t =
     (if t = batch then
        (if a = dst then (if src = dst then bal src batch - amount else bal dst batch) + amount
         else if a = src then bal src batch - amount
         else bal a t)
      else bal a t)"
  by (simp add: moveUnits_def Let_def)

lemma moveEther_apply:
  "moveEther src dst amount bal a =
     (if a = dst then (if src = dst then bal src - amount else bal dst) + amount
      else if a = src then bal src - amount
      else bal a)"
  by (simp add: moveEther_def Let_def)

lemma optional_transfer_Inr:
  assumes "(if 0 < amount then transferEther s dst amount else Inr s) = Inr s'"
  shows "s' = s\<lparr>ether := moveEther (self s) dst amount (ether s)\<rparr>"
  using assms by (cases "0 < amount") (auto simp: transferEther_Inr moveEther_zero)

lemma run_tx_Inl: "f s = Inl e \<Longrightarrow> run_tx f s = s"
  by (simp add: run_tx_def)

lemma run_tx_Inr: "f s = Inr s' \<Longrightarrow> run_tx f s = s'"
  by (simp add: run_tx_def)

lemma not_Inr_is_Inl: "(\<And>y. x \<noteq> Inr y) \<Longrightarrow> \<exists>e. x = Inl e"
  by (cases x) auto

lemmas eval_defs =
  run_tx_def createListing_def startSession_def endSession_def cancelListing_def
  updateListing_def receiveValue_def transferEther_def moveEther_def moveUnits_def
  splitPayment_def checked_mul_def checked_sub_def checked_add_def BASIS_POINTS_def
  safeTransferFrom_def Let_def zeroListing_def zeroSession_def

subsection \<open>The concrete run, evaluated\<close>

text \<open>
  The states of the concrete run are computed by unfolding the functions; each step of the
  first text is a step of \<open>reachable\<close>.
\<close>

lemmas eval_pr_defs =
  createListing_pr_def startSession_pr_def endSession_pr_def distributePayment_def
  settlement_def cancelListing_pr_def

lemma scenario_deployed_ok:
  "constructor 100 1 50 1 500
     (\<lambda>a t. if t = 7 then (if a = 2 then 10 else if a = 4 then 5 else 0) else 0)
     (\<lambda>a b. (a = 2 \<or> a = 4) \<and> b = 100) (\<lambda>a. if a = 3 then 1000000 else 0) (\<lambda>a. False)
   = Inr scenario_deployed"
  by (simp add: constructor_def scenario_deployed_def BASIS_POINTS_def)

lemma scenario_deployed_fields:
  "balanceOf scenario_deployed 2 7 = 10" "balanceOf scenario_deployed 100 7 = 0"
  "self scenario_deployed = 100" "paused scenario_deployed = False"
  "listingCounter scenario_deployed = 0"
  "minRentalDuration scenario_deployed = 86400"
  "maxRentalDuration scenario_deployed = 31536000"
  "isApprovedForAll scenario_deployed 2 100 = True"
  by (simp_all add: scenario_deployed_def)

lemma scenario_listed_ok:
  "createListing scenario_deployed 2 1000 7 1 10 86400 864000 = Inr scenario_listed"
  by (simp add: scenario_listed_def scenario_deployed_def eval_defs)

lemma scenario_listed_fields:
  "listings scenario_listed 1 = \<lparr>lender = 2, tokenId = 7, pricePerUnit = 1,
       availableUnits = 10, totalUnits = 10, minDuration = 86400,
       maxDuration = 864000, createdAt = 1000, isActive = True\<rparr>"
  "sessionCounter scenario_listed = 0" "platformFee scenario_listed = 500"
  "self scenario_listed = 100" "platformWallet scenario_listed = 1"
  "balanceOf scenario_listed 100 7 = 10" "balanceOf scenario_listed 3 7 = 0"
  "ether scenario_listed 1 = 0" "ether scenario_listed 2 = 0"
  "ether scenario_listed 3 = 1000000" "ether scenario_listed 100 = 0"
  by (simp_all add: scenario_listed_def scenario_deployed_def eval_defs)

lemma scenario_rented_ok:
  "startSession scenario_listed 3 200000 2000 1 2 86400 = Inr scenario_rented"
  by (simp add: scenario_rented_def scenario_listed_def scenario_deployed_def eval_defs)

lemma scenario_rented_fields:
  "listings scenario_rented 1 = \<lparr>lender = 2, tokenId = 7, pricePerUnit = 1,
       availableUnits = 8, totalUnits = 10, minDuration = 86400,
       maxDuration = 864000, createdAt = 1000, isActive = True\<rparr>"
  "sessions scenario_rented 1 = \<lparr>borrower = 3, listingId = 1, units = 2, startTime = 2000,
       endTime = 88400, totalPaid = 172800, sessionIsActive = True\<rparr>"
  "sessionCounter scenario_rented = 1" "listingCounter scenario_rented = 1"
  "self scenario_rented = 100" "owner scenario_rented = 1"
  "balanceOf scenario_rented 100 7 = 8" "balanceOf scenario_rented 3 7 = 2"
  "balanceOf scenario_rented 2 7 = 0" "balanceOf scenario_rented 4 7 = 5"
  "isApprovedForAll scenario_rented 3 100 = False"
  "isApprovedForAll scenario_rented 4 100 = True"
  "ether scenario_rented 1 = 8640" "ether scenario_rented 2 = 164160"
  "ether scenario_rented 3 = 827200" "ether scenario_rented 100 = 0"
  by (simp_all add: scenario_rented_def scenario_listed_def scenario_deployed_def eval_defs)

lemma scenario_rented_reachable: "reachable scenario_rented"
proof -
  have "reachable scenario_deployed"
    using scenario_deployed_ok by (rule reachable.deployed)
  then have "reachable scenario_listed"
    using scenario_listed_ok by (rule reachable.created)
  then show ?thesis
    using scenario_rented_ok by (rule reachable.started)
qed

lemma scenario_approved_eq:
  "scenario_approved =
     scenario_rented\<lparr>balanceOf := balanceOf scenario_rented,
        isApprovedForAll := (\<lambda>a b. (a = 2 \<or> a = 3 \<or> a = 4) \<and> b = 100),
        ether := ether scenario_rented, refusesEther := refusesEther scenario_rented\<rparr>"
  by (simp add: scenario_approved_def)

lemma scenario_approved_fields:
  "listings scenario_approved 1 = \<lparr>lender = 2, tokenId = 7, pricePerUnit = 1,
       availableUnits = 8, totalUnits = 10, minDuration = 86400,
       maxDuration = 864000, createdAt = 1000, isActive = True\<rparr>"
  "sessions scenario_approved 1 = \<lparr>borrower = 3, listingId = 1, units = 2, startTime = 2000,
       endTime = 88400, totalPaid = 172800, sessionIsActive = True\<rparr>"
  "self scenario_approved = 100" "owner scenario_approved = 1"
  "balanceOf scenario_approved 100 7 = 8" "balanceOf scenario_approved 3 7 = 2"
  "balanceOf scenario_approved 2 7 = 0"
  "isApprovedForAll scenario_approved 3 100 = True"
  by (simp_all add: scenario_approved_def scenario_rented_def scenario_listed_def
        scenario_deployed_def eval_defs)

lemma scenario_approved_reachable: "reachable scenario_approved"
proof -
  have "reachable scenario_deployed"
    using scenario_deployed_ok by (rule reachable.deployed)
  then have "reachable scenario_listed"
    using scenario_listed_ok by (rule reachable.created)
  then have "reachable scenario_rented"
    using scenario_rented_ok by (rule reachable.started)
  then show ?thesis
    unfolding scenario_approved_eq by (rule reachable.ledgers)
qed

lemma scenario_returned_ok:
  "endSession scenario_approved 3 88400 1 = Inr scenario_returned"
  by (simp add: scenario_returned_def scenario_approved_def scenario_rented_def
        scenario_listed_def scenario_deployed_def eval_defs)

lemma scenario_returned_fields:
  "listings scenario_returned 1 = \<lparr>lender = 2, tokenId = 7, pricePerUnit = 1,
       availableUnits = 10, totalUnits = 10, minDuration = 86400,
       maxDuration = 864000, createdAt = 1000, isActive = True\<rparr>"
  "sessions scenario_returned 1 = \<lparr>borrower = 3, listingId = 1, units = 2, startTime = 2000,
       endTime = 88400, totalPaid = 172800, sessionIsActive = False\<rparr>"
  "self scenario_returned = 100"
  "balanceOf scenario_returned 100 7 = 8" "balanceOf scenario_returned 3 7 = 0"
  "balanceOf scenario_returned 2 7 = 2"
  by (simp_all add: scenario_returned_def scenario_approved_def scenario_rented_def
        scenario_listed_def scenario_deployed_def eval_defs)

lemma scenario_returned_reachable: "reachable scenario_returned"
  using scenario_approved_reachable scenario_returned_ok by (rule reachable.ended)

lemma scenario_cancelled_ok:
  "cancelListing scenario_approved 2 1 = Inr scenario_cancelled"
  by (simp add: scenario_cancelled_def scenario_approved_def scenario_rented_def
        scenario_listed_def scenario_deployed_def eval_defs)

lemma scenario_cancelled_fields:
  "listings scenario_cancelled 1 = \<lparr>lender = 2, tokenId = 7, pricePerUnit = 1,
       availableUnits = 8, totalUnits = 10, minDuration = 86400,
       maxDuration = 864000, createdAt = 1000, isActive = False\<rparr>"
  "sessions scenario_cancelled 1 = \<lparr>borrower = 3, listingId = 1, units = 2,
       startTime = 2000, endTime = 88400, totalPaid = 172800, sessionIsActive = True\<rparr>"
  "sessionCounter scenario_cancelled = 1"
  "balanceOf scenario_cancelled 100 7 = 0" "balanceOf scenario_cancelled 3 7 = 2"
  "balanceOf scenario_cancelled 2 7 = 8"
  by (simp_all add: scenario_cancelled_def scenario_approved_def scenario_rented_def
        scenario_listed_def scenario_deployed_def eval_defs)

lemma scenario_closed_ok: "endSession scenario_cancelled 3 88400 1 = Inr scenario_closed"
  by (simp add: scenario_closed_def scenario_cancelled_def scenario_approved_def
        scenario_rented_def scenario_listed_def scenario_deployed_def eval_defs)

lemma scenario_closed_fields:
  "listings scenario_closed 1 = \<lparr>lender = 2, tokenId = 7, pricePerUnit = 1,
       availableUnits = 8, totalUnits = 10, minDuration = 86400,
       maxDuration = 864000, createdAt = 1000, isActive = False\<rparr>"
  "sessions scenario_closed 1 = \<lparr>borrower = 3, listingId = 1, units = 2,
       startTime = 2000, endTime = 88400, totalPaid = 172800, sessionIsActive = False\<rparr>"
  "sessionCounter scenario_closed = 1"
  by (simp_all add: scenario_closed_def scenario_cancelled_def scenario_approved_def
        scenario_rented_def scenario_listed_def scenario_deployed_def eval_defs)

lemma scenario_closed_reachable: "reachable scenario_closed"
proof -
  have "reachable scenario_cancelled"
    using scenario_approved_reachable scenario_cancelled_ok by (rule reachable.cancelled)
  then show ?thesis
    using scenario_closed_ok by (rule reachable.ended)
qed

lemma scenario_pr_rented_ok:
  "startSession_pr scenario_pr_listed 3 10000 2000 1 1 100 = Inr scenario_pr_rented"
  by (simp add: scenario_pr_rented_def scenario_pr_listed_def scenario_pr_deployed_def
        scenario_deployed_def eval_defs eval_pr_defs)

lemma scenario_pr_closed_ok:
  "endSession_pr scenario_pr_rented 3 2040 1 = Inr scenario_pr_closed"
  by (simp add: scenario_pr_closed_def scenario_pr_rented_def scenario_pr_listed_def
        scenario_pr_deployed_def scenario_deployed_def eval_defs eval_pr_defs)

lemma scenario_pr_fields:
  "sessions scenario_pr_rented 1 = \<lparr>borrower = 3, listingId = 1, units = 1,
       startTime = 2000, endTime = 2100, totalPaid = 0, sessionIsActive = True\<rparr>"
  "listings scenario_pr_rented 1 = \<lparr>lender = 2, tokenId = 7, pricePerUnit = 100,
       availableUnits = 0, totalUnits = 0, minDuration = 0, maxDuration = 0,
       createdAt = 0, isActive = True\<rparr>"
  "platformFee scenario_pr_rented = 500" "platformWallet scenario_pr_rented = 1"
  "self scenario_pr_rented = 100"
  "ether scenario_pr_listed 1 = 0" "ether scenario_pr_listed 2 = 0"
  "ether scenario_pr_rented 1 = 500" "ether scenario_pr_rented 2 = 9500"
  "ether scenario_pr_rented 3 = 990000" "ether scenario_pr_rented 100 = 6000"
  "ether scenario_pr_closed 1 = 800" "ether scenario_pr_closed 2 = 15200"
  "ether scenario_pr_closed 3 = 990000" "ether scenario_pr_closed 100 = 0"
  "sessionIsActive (sessions scenario_pr_closed 1) = False"
  "settlement scenario_pr_rented 2040 1 = Inr (10000, 4000)"
  by (simp_all add: scenario_pr_closed_def scenario_pr_rented_def scenario_pr_listed_def
        scenario_pr_deployed_def scenario_deployed_def eval_defs eval_pr_defs)

lemma scenario_page_fields:
  "listingCounter scenario_page = 3"
  "isActive (listings scenario_page 1)" "\<not> isActive (listings scenario_page 2)"
  "isActive (listings scenario_page 3)"
  "pricePerUnit (listings scenario_page 1) = 1" "pricePerUnit (listings scenario_page 3) = 3"
  by (simp_all add: scenario_page_def zeroListing_def)

subsection \<open>Starting a session (first text)\<close>

lemma startSession_Inr_D:
  assumes ok: "startSession s sender val now lid n duration = Inr s'"
  shows "isActive (listings s lid) \<and> \<not> paused s \<and> 0 < n \<and> n \<le> availableUnits (listings s lid)
         \<and> minDuration (listings s lid) \<le> duration \<and> duration \<le> maxDuration (listings s lid)
         \<and> pricePerUnit (listings s lid) * n * duration < 2 ^ 256
         \<and> pricePerUnit (listings s lid) * n * duration \<le> val"
    and "\<exists>fee share.
           splitPayment (pricePerUnit (listings s lid) * n * duration) (platformFee s)
             = Inr (fee, share)
         \<and> s' = s\<lparr>sessionCounter := sessionCounter s + 1,
                  listings := (listings s)(lid :=
                     (listings s lid)\<lparr>availableUnits := availableUnits (listings s lid) - n\<rparr>),
                  sessions := (sessions s)(sessionCounter s + 1 :=
                    \<lparr>borrower = sender, listingId = lid, units = n, startTime = now,
                     endTime = now + duration,
                     totalPaid = pricePerUnit (listings s lid) * n * duration,
                     sessionIsActive = True\<rparr>),
                  userSessions := (userSessions s)(sender :=
                     userSessions s sender @ [sessionCounter s + 1]),
                  balanceOf := moveUnits (self s) sender (tokenId (listings s lid)) n (balanceOf s),
                  ether := moveEther (self s) sender
                             (val - pricePerUnit (listings s lid) * n * duration)
                          (moveEther (self s) (platformWallet s) fee
                          (moveEther (self s) (lender (listings s lid)) share
                          (moveEther sender (self s) val (ether s))))\<rparr>"
    and "val \<le> ether s sender \<and> n \<le> balanceOf s (self s) (tokenId (listings s lid))"
proof -
  let ?L = "listings s lid"
  let ?cost = "pricePerUnit ?L * n * duration"
  from ok obtain s1 where r: "receiveValue s sender val = Inr s1"
    by (auto simp: startSession_def split: sum.splits)
  then have s1: "s1 = s\<lparr>ether := moveEther sender (self s) val (ether s)\<rparr>"
    by (simp add: receiveValue_Inr)
  have L1: "listings s1 lid = ?L" by (simp add: s1)
  from ok r have pre: "\<not> paused s" "isActive ?L" "0 < n" "n \<le> availableUnits ?L"
      "minDuration ?L \<le> duration" "duration \<le> maxDuration ?L"
    by (auto simp: startSession_def Let_def s1 split: if_splits)
  from ok r pre obtain pu where pu: "checked_mul (pricePerUnit ?L) n = Inr pu"
    by (auto simp: startSession_def Let_def s1 split: sum.splits)
  from ok r pre pu obtain tc where tc: "checked_mul pu duration = Inr tc"
    by (auto simp: startSession_def Let_def s1 split: sum.splits)
  from pu tc have cost: "tc = ?cost" "?cost < 2 ^ 256"
    by (auto simp: checked_mul_Inr)
  from ok r pre pu tc have pay: "tc \<le> val"
    by (auto simp: startSession_def Let_def s1 split: if_splits)
  from ok r pre pu tc pay obtain fee share where
    sp: "splitPayment tc (platformFee s) = Inr (fee, share)"
    by (auto simp: startSession_def Let_def s1 split: sum.splits)
  from ok r pre pu tc pay sp obtain s2 where
    t1: "transferEther s1 (lender ?L) share = Inr s2"
    by (auto simp: startSession_def Let_def s1 split: sum.splits)
  from ok r pre pu tc pay sp t1 obtain s3 where
    t2: "(if 0 < fee then transferEther s2 (platformWallet s2) fee else Inr s2) = Inr s3"
    by (auto simp: startSession_def Let_def s1 split: sum.splits)
  from ok r pre pu tc pay sp t1 t2 obtain s4 where
    t3: "(if tc < val then transferEther s3 sender (val - tc) else Inr s3) = Inr s4"
    by (auto simp: startSession_def Let_def s1 split: sum.splits)
  have s2: "s2 = s1\<lparr>ether := moveEther (self s1) (lender ?L) share (ether s1)\<rparr>"
    using t1 by (simp add: transferEther_Inr)
  have s3: "s3 = s2\<lparr>ether := moveEther (self s2) (platformWallet s2) fee (ether s2)\<rparr>"
    using t2 by (rule optional_transfer_Inr)
  have "(if 0 < val - tc then transferEther s3 sender (val - tc) else Inr s3) = Inr s4"
    using t3 by (simp split: if_splits)
  then have s4: "s4 = s3\<lparr>ether := moveEther (self s3) sender (val - tc) (ether s3)\<rparr>"
    by (rule optional_transfer_Inr)
  from ok r pre pu tc pay sp t1 t2 t3 obtain sid where
    sid: "checked_add (sessionCounter s4) 1 = Inr sid"
    by (auto simp: startSession_def Let_def s1 split: sum.splits)
  from ok r pre pu tc pay sp t1 t2 t3 sid obtain fin where
    fin: "checked_add now duration = Inr fin"
    by (auto simp: startSession_def Let_def s1 split: sum.splits)
  have sidv: "sid = sessionCounter s + 1" using sid by (simp add: checked_add_Inr s4 s3 s2 s1)
  have finv: "fin = now + duration" using fin by (simp add: checked_add_Inr)
  let ?s5 = "s4\<lparr>sessionCounter := sid,
                  sessions := (sessions s4)(sid :=
                    \<lparr>borrower = sender, listingId = lid, units = n, startTime = now,
                     endTime = fin, totalPaid = tc, sessionIsActive = True\<rparr>)\<rparr>"
  from ok r pre pu tc pay sp t1 t2 t3 sid fin obtain rem where
    rem: "checked_sub (availableUnits (listings ?s5 lid)) n = Inr rem"
    by (auto simp: startSession_def Let_def s1 split: sum.splits)
  have remv: "rem = availableUnits ?L - n"
    using rem by (simp add: checked_sub_Inr s4 s3 s2 s1)
  let ?s6 = "?s5\<lparr>listings := (listings ?s5)(lid :=
                    (listings ?s5 lid)\<lparr>availableUnits := rem\<rparr>)\<rparr>"
  from ok r pre pu tc pay sp t1 t2 t3 sid fin rem obtain s7 where
    tr: "safeTransferFrom ?s6 (self ?s6) (self ?s6) sender (tokenId (listings ?s6 lid)) n = Inr s7"
    and fin': "s' = s7\<lparr>userSessions := (userSessions s7)(sender := userSessions s7 sender @ [sid])\<rparr>"
    by (auto simp: startSession_def Let_def s1 split: sum.splits)
  have s7: "s7 = ?s6\<lparr>balanceOf := moveUnits (self ?s6) sender (tokenId (listings ?s6 lid)) n
                          (balanceOf ?s6)\<rparr>"
    using tr by (simp add: safeTransferFrom_Inr)
  show "isActive ?L \<and> \<not> paused s \<and> 0 < n \<and> n \<le> availableUnits ?L
         \<and> minDuration ?L \<le> duration \<and> duration \<le> maxDuration ?L
         \<and> ?cost < 2 ^ 256 \<and> ?cost \<le> val"
    using pre cost pay by simp
  have "n \<le> balanceOf ?s6 (self ?s6) (tokenId (listings ?s6 lid))"
    using tr by (simp add: safeTransferFrom_Inr)
  then have held: "n \<le> balanceOf s (self s) (tokenId ?L)"
    by (simp add: s4 s3 s2 s1)
  have funded: "val \<le> ether s sender"
    using r by (simp add: receiveValue_Inr)
  from funded held show "val \<le> ether s sender \<and> n \<le> balanceOf s (self s) (tokenId ?L)"
    by simp
  have "s' = s\<lparr>sessionCounter := sessionCounter s + 1,
                  listings := (listings s)(lid :=
                     ?L\<lparr>availableUnits := availableUnits ?L - n\<rparr>),
                  sessions := (sessions s)(sessionCounter s + 1 :=
                    \<lparr>borrower = sender, listingId = lid, units = n, startTime = now,
                     endTime = now + duration, totalPaid = ?cost, sessionIsActive = True\<rparr>),
                  userSessions := (userSessions s)(sender :=
                     userSessions s sender @ [sessionCounter s + 1]),
                  balanceOf := moveUnits (self s) sender (tokenId ?L) n (balanceOf s),
                  ether := moveEther (self s) sender (val - ?cost)
                          (moveEther (self s) (platformWallet s) fee
                          (moveEther (self s) (lender ?L) share
                          (moveEther sender (self s) val (ether s))))\<rparr>"
    unfolding fin' s7 s4 s3 s2 s1 sidv finv remv cost(1) by simp
  with sp cost show "\<exists>fee share.
           splitPayment ?cost (platformFee s) = Inr (fee, share)
         \<and> s' = s\<lparr>sessionCounter := sessionCounter s + 1,
                  listings := (listings s)(lid :=
                     ?L\<lparr>availableUnits := availableUnits ?L - n\<rparr>),
                  sessions := (sessions s)(sessionCounter s + 1 :=
                    \<lparr>borrower = sender, listingId = lid, units = n, startTime = now,
                     endTime = now + duration, totalPaid = ?cost, sessionIsActive = True\<rparr>),
                  userSessions := (userSessions s)(sender :=
                     userSessions s sender @ [sessionCounter s + 1]),
                  balanceOf := moveUnits (self s) sender (tokenId ?L) n (balanceOf s),
                  ether := moveEther (self s) sender (val - ?cost)
                          (moveEther (self s) (platformWallet s) fee
                          (moveEther (self s) (lender ?L) share
                          (moveEther sender (self s) val (ether s))))\<rparr>"
    by blast
qed

text \<open>
  Claim C2. A call of startSession succeeds only if the listing is active,
  \<open>0 < units \<le> availableUnits\<close>, the duration lies within the listing's bounds, the total
  cost \<open>pricePerUnit * units * duration\<close> stays within \<open>uint256\<close> and the payment covers it
  (and only if the borrower holds the payment and the engine holds the units of the
  batch). On success the ether ledger is the old one after the payment came in, the
  lender's share and the platform's fee of the total cost went out and the excess went
  back to the borrower: between distinct parties the lender gains the share, the platform
  wallet the fee, the borrower pays the total cost and the engine keeps nothing. The
  listing's availableUnits dropped by the units; the session with the next id records the
  borrower, the units, \<open>endTime = startTime + duration\<close> and the total cost as amount paid;
  and the units, which the engine held, moved from the engine to the borrower, no other
  unit balance changing. If one of the preconditions fails, the call is rejected and the
  state is the one before the call.
\<close>

theorem startSession_atomic:
  "(startSession s sender val now lid n duration = Inr s' \<longrightarrow>
      isActive (listings s lid) \<and> 0 < n \<and> n \<le> availableUnits (listings s lid)
      \<and> minDuration (listings s lid) \<le> duration \<and> duration \<le> maxDuration (listings s lid)
      \<and> pricePerUnit (listings s lid) * n * duration < 2 ^ 256
      \<and> pricePerUnit (listings s lid) * n * duration \<le> val
      \<and> val \<le> ether s sender
      \<and> n \<le> balanceOf s (self s) (tokenId (listings s lid))
      \<and> (\<exists>fee share.
            splitPayment (pricePerUnit (listings s lid) * n * duration) (platformFee s)
              = Inr (fee, share)
            \<and> fee + share = pricePerUnit (listings s lid) * n * duration
            \<and> ether s' =
                moveEther (self s) sender (val - pricePerUnit (listings s lid) * n * duration)
               (moveEther (self s) (platformWallet s) fee
               (moveEther (self s) (lender (listings s lid)) share
               (moveEther sender (self s) val (ether s))))
            \<and> (distinct [sender, self s, lender (listings s lid), platformWallet s] \<longrightarrow>
                  ether s' (lender (listings s lid)) = ether s (lender (listings s lid)) + share
                  \<and> ether s' (platformWallet s) = ether s (platformWallet s) + fee
                  \<and> ether s' sender + pricePerUnit (listings s lid) * n * duration
                      = ether s sender
                  \<and> ether s' (self s) = ether s (self s)))
      \<and> listings s' = (listings s)(lid :=
           (listings s lid)\<lparr>availableUnits := availableUnits (listings s lid) - n\<rparr>)
      \<and> sessionCounter s' = sessionCounter s + 1
      \<and> sessions s' = (sessions s)(sessionCounter s + 1 :=
           \<lparr>borrower = sender, listingId = lid, units = n, startTime = now,
            endTime = now + duration,
            totalPaid = pricePerUnit (listings s lid) * n * duration,
            sessionIsActive = True\<rparr>)
      \<and> balanceOf s' = moveUnits (self s) sender (tokenId (listings s lid)) n (balanceOf s)
      \<and> (sender \<noteq> self s \<longrightarrow>
            balanceOf s' (self s) (tokenId (listings s lid)) + n
              = balanceOf s (self s) (tokenId (listings s lid))
            \<and> balanceOf s' sender (tokenId (listings s lid))
              = balanceOf s sender (tokenId (listings s lid)) + n)
      \<and> (\<forall>a t. (a \<noteq> sender \<and> a \<noteq> self s) \<or> t \<noteq> tokenId (listings s lid)
             \<longrightarrow> balanceOf s' a t = balanceOf s a t))
   \<and> (\<not> (isActive (listings s lid) \<and> 0 < n \<and> n \<le> availableUnits (listings s lid)
          \<and> minDuration (listings s lid) \<le> duration \<and> duration \<le> maxDuration (listings s lid)
          \<and> pricePerUnit (listings s lid) * n * duration < 2 ^ 256
          \<and> pricePerUnit (listings s lid) * n * duration \<le> val) \<longrightarrow>
       (\<exists>e. startSession s sender val now lid n duration = Inl e)
       \<and> run_tx (\<lambda>s. startSession s sender val now lid n duration) s = s)"
proof (intro conjI impI allI)
  assume ok: "startSession s sender val now lid n duration = Inr s'"
  let ?L = "listings s lid"
  let ?cost = "pricePerUnit ?L * n * duration"
  note pre = startSession_Inr_D(1) [OF ok]
  from startSession_Inr_D(3) [OF ok]
  have funded: "val \<le> ether s sender" and held: "n \<le> balanceOf s (self s) (tokenId ?L)"
    by simp_all
  from startSession_Inr_D(2) [OF ok] obtain fee share where
    sp: "splitPayment ?cost (platformFee s) = Inr (fee, share)"
    and s': "s' = s\<lparr>sessionCounter := sessionCounter s + 1,
                  listings := (listings s)(lid :=
                     ?L\<lparr>availableUnits := availableUnits ?L - n\<rparr>),
                  sessions := (sessions s)(sessionCounter s + 1 :=
                    \<lparr>borrower = sender, listingId = lid, units = n, startTime = now,
                     endTime = now + duration, totalPaid = ?cost, sessionIsActive = True\<rparr>),
                  userSessions := (userSessions s)(sender :=
                     userSessions s sender @ [sessionCounter s + 1]),
                  balanceOf := moveUnits (self s) sender (tokenId ?L) n (balanceOf s),
                  ether := moveEther (self s) sender (val - ?cost)
                          (moveEther (self s) (platformWallet s) fee
                          (moveEther (self s) (lender ?L) share
                          (moveEther sender (self s) val (ether s))))\<rparr>"
    by blast
  from sp have sum: "fee + share = ?cost"
    by (simp add: splitPayment_Inr)
  from pre have paid: "?cost \<le> val" by simp
  have eth: "ether s' = moveEther (self s) sender (val - ?cost)
               (moveEther (self s) (platformWallet s) fee
               (moveEther (self s) (lender ?L) share
               (moveEther sender (self s) val (ether s))))"
    by (simp add: s')
  have deltas: "ether s' (lender ?L) = ether s (lender ?L) + share
                  \<and> ether s' (platformWallet s) = ether s (platformWallet s) + fee
                  \<and> ether s' sender + ?cost = ether s sender
                  \<and> ether s' (self s) = ether s (self s)"
    if d: "distinct [sender, self s, lender ?L, platformWallet s]"
  proof -
    from d have ne: "sender \<noteq> self s" "sender \<noteq> lender ?L" "sender \<noteq> platformWallet s"
        "self s \<noteq> lender ?L" "self s \<noteq> platformWallet s" "lender ?L \<noteq> platformWallet s"
      by auto
    have a: "ether s' (lender ?L) = ether s (lender ?L) + share"
      using ne by (simp add: eth moveEther_apply)
    have b: "ether s' (platformWallet s) = ether s (platformWallet s) + fee"
      using ne by (auto simp: eth moveEther_apply)
    have "ether s' sender = ether s sender - val + (val - ?cost)"
      using ne by (auto simp: eth moveEther_apply)
    then have c: "ether s' sender + ?cost = ether s sender"
      using funded paid by simp
    have "ether s' (self s) = ether s (self s) + val - share - fee - (val - ?cost)"
      using ne by (auto simp: eth moveEther_apply)
    then have e: "ether s' (self s) = ether s (self s)"
      using sum paid by simp
    from a b c e show ?thesis by simp
  qed
  show "isActive ?L" "0 < n" "n \<le> availableUnits ?L"
    "minDuration ?L \<le> duration" "duration \<le> maxDuration ?L"
    "?cost < 2 ^ 256" "?cost \<le> val"
    using pre by simp_all
  show "val \<le> ether s sender" by (rule funded)
  show "n \<le> balanceOf s (self s) (tokenId ?L)" by (rule held)
  show "\<exists>fee share.
            splitPayment ?cost (platformFee s) = Inr (fee, share)
            \<and> fee + share = ?cost
            \<and> ether s' =
                moveEther (self s) sender (val - ?cost)
               (moveEther (self s) (platformWallet s) fee
               (moveEther (self s) (lender ?L) share
               (moveEther sender (self s) val (ether s))))
            \<and> (distinct [sender, self s, lender ?L, platformWallet s] \<longrightarrow>
                  ether s' (lender ?L) = ether s (lender ?L) + share
                  \<and> ether s' (platformWallet s) = ether s (platformWallet s) + fee
                  \<and> ether s' sender + ?cost = ether s sender
                  \<and> ether s' (self s) = ether s (self s))"
  proof (rule exI [of _ fee], rule exI [of _ share], intro conjI impI)
    show "splitPayment ?cost (platformFee s) = Inr (fee, share)" by (rule sp)
    show "fee + share = ?cost" by (rule sum)
    show "ether s' =
                moveEther (self s) sender (val - ?cost)
               (moveEther (self s) (platformWallet s) fee
               (moveEther (self s) (lender ?L) share
               (moveEther sender (self s) val (ether s))))" by (rule eth)
    assume d: "distinct [sender, self s, lender ?L, platformWallet s]"
    show "ether s' (lender ?L) = ether s (lender ?L) + share"
      "ether s' (platformWallet s) = ether s (platformWallet s) + fee"
      "ether s' sender + ?cost = ether s sender"
      "ether s' (self s) = ether s (self s)"
      using deltas [OF d] by simp_all
  qed
  show "listings s' = (listings s)(lid := ?L\<lparr>availableUnits := availableUnits ?L - n\<rparr>)"
    by (simp add: s')
  show "sessionCounter s' = sessionCounter s + 1" by (simp add: s')
  show "sessions s' = (sessions s)(sessionCounter s + 1 :=
           \<lparr>borrower = sender, listingId = lid, units = n, startTime = now,
            endTime = now + duration, totalPaid = ?cost, sessionIsActive = True\<rparr>)"
    by (simp add: s')
  show "balanceOf s' = moveUnits (self s) sender (tokenId ?L) n (balanceOf s)"
    by (simp add: s')
  show "balanceOf s' (self s) (tokenId ?L) + n = balanceOf s (self s) (tokenId ?L)"
    if "sender \<noteq> self s"
    using that held by (simp add: s' moveUnits_apply)
  show "balanceOf s' sender (tokenId ?L) = balanceOf s sender (tokenId ?L) + n"
    if "sender \<noteq> self s"
    using that by (simp add: s' moveUnits_apply)
  show "balanceOf s' a t = balanceOf s a t"
    if "(a \<noteq> sender \<and> a \<noteq> self s) \<or> t \<noteq> tokenId ?L" for a t
    using that by (auto simp: s' moveUnits_apply)
next
  assume bad: "\<not> (isActive (listings s lid) \<and> 0 < n \<and> n \<le> availableUnits (listings s lid)
          \<and> minDuration (listings s lid) \<le> duration \<and> duration \<le> maxDuration (listings s lid)
          \<and> pricePerUnit (listings s lid) * n * duration < 2 ^ 256
          \<and> pricePerUnit (listings s lid) * n * duration \<le> val)"
  have "\<And>y. startSession s sender val now lid n duration \<noteq> Inr y"
    using bad startSession_Inr_D(1) by blast
  then show e: "\<exists>e. startSession s sender val now lid n duration = Inl e"
    by (rule not_Inr_is_Inl)
  then show "run_tx (\<lambda>s. startSession s sender val now lid n duration) s = s"
    by (auto simp: run_tx_def)
qed

lemma scenario_second_borrower:
  "startSession scenario_rented 3 800000 3000 1 9 86400 = Inl NotEnoughUnitsAvailable"
  by (simp add: scenario_rented_def scenario_listed_def scenario_deployed_def eval_defs)

theorem startSession_atomic_witness:
  "startSession scenario_listed 3 200000 2000 1 2 86400 = Inr scenario_rented
   \<and> isActive (listings scenario_listed 1)
   \<and> pricePerUnit (listings scenario_listed 1) * 2 * 86400 \<le> 200000
   \<and> 2 \<le> balanceOf scenario_listed (self scenario_listed)
             (tokenId (listings scenario_listed 1))
   \<and> sessionCounter scenario_rented = sessionCounter scenario_listed + 1
   \<and> balanceOf scenario_rented
        = moveUnits (self scenario_listed) 3 (tokenId (listings scenario_listed 1)) 2
            (balanceOf scenario_listed)
   \<and> availableUnits (listings scenario_rented 1) = 8
   \<and> balanceOf scenario_rented 100 7 = 8 \<and> balanceOf scenario_rented 3 7 = 2
   \<and> ether scenario_rented 1 = 8640 \<and> ether scenario_rented 2 = 164160
   \<and> ether scenario_rented 3 = 827200 \<and> ether scenario_rented 100 = 0
   \<and> 800000 \<le> ether scenario_rented 3
   \<and> \<not> 9 \<le> availableUnits (listings scenario_rented 1)
   \<and> startSession scenario_rented 3 800000 3000 1 9 86400 = Inl NotEnoughUnitsAvailable
   \<and> run_tx (\<lambda>s. startSession s 3 800000 3000 1 9 86400) scenario_rented = scenario_rented"
proof -
  note first = startSession_atomic [where s = scenario_listed and sender = 3
      and val = 200000 and now = 2000 and lid = 1 and n = 2 and duration = 86400
      and s' = scenario_rented]
  note second = startSession_atomic [where s = scenario_rented and sender = 3
      and val = 800000 and now = 3000 and lid = 1 and n = 9 and duration = 86400
      and s' = scenario_rented]
  have small: "\<not> 9 \<le> availableUnits (listings scenario_rented 1)"
    "800000 \<le> ether scenario_rented 3"
    unfolding scenario_rented_fields by simp_all
  have concrete: "availableUnits (listings scenario_rented 1) = 8"
    "balanceOf scenario_rented 100 7 = 8" "balanceOf scenario_rented 3 7 = 2"
    "ether scenario_rented 1 = 8640" "ether scenario_rented 2 = 164160"
    "ether scenario_rented 3 = 827200" "ether scenario_rented 100 = 0"
    unfolding scenario_rented_fields by simp_all
  from first scenario_rented_ok second small concrete scenario_second_borrower
  show ?thesis by blast
qed

subsection \<open>Creating a listing (first text)\<close>

lemma createListing_Inr_iff:
  "createListing s sender now tid price n minD maxD = Inr s' \<longleftrightarrow>
     \<not> paused s \<and> 0 < n \<and> 0 < price \<and> minRentalDuration s \<le> minD
     \<and> maxD \<le> maxRentalDuration s \<and> minD \<le> maxD
     \<and> n \<le> balanceOf s sender tid \<and> (self s = sender \<or> isApprovedForAll s sender (self s))
     \<and> listingCounter s + 1 < 2 ^ 256
     \<and> s' = s\<lparr>balanceOf := moveUnits sender (self s) tid n (balanceOf s),
              listingCounter := listingCounter s + 1,
              listings := (listings s)(listingCounter s + 1 :=
                \<lparr>lender = sender, tokenId = tid, pricePerUnit = price,
                 availableUnits = n, totalUnits = n, minDuration = minD,
                 maxDuration = maxD, createdAt = now, isActive = True\<rparr>),
              userListings := (userListings s)(sender :=
                 userListings s sender @ [listingCounter s + 1])\<rparr>"
  by (auto simp: createListing_def safeTransferFrom_def checked_add_def)

text \<open>
  Claim C5. A call of createListing succeeds only if the lender holds at least the units of
  the batch and has approved the engine as operator; on success exactly the units move
  from the lender to the engine and the listing with the next id is created. If the
  lender holds fewer units the call is rejected and the state, listings and unit balances
  included, is the one before the call; the error is \<open>InsufficientBalance\<close> when the other
  checks pass.
\<close>

theorem createListing_custody:
  "(createListing s sender now tid price n minD maxD = Inr s' \<longrightarrow>
      n \<le> balanceOf s sender tid
      \<and> (sender \<noteq> self s \<longrightarrow> isApprovedForAll s sender (self s))
      \<and> balanceOf s' = moveUnits sender (self s) tid n (balanceOf s)
      \<and> (sender \<noteq> self s \<longrightarrow>
            balanceOf s' sender tid = balanceOf s sender tid - n
            \<and> balanceOf s' (self s) tid = balanceOf s (self s) tid + n)
      \<and> (\<forall>a t. (a \<noteq> sender \<and> a \<noteq> self s) \<or> t \<noteq> tid \<longrightarrow> balanceOf s' a t = balanceOf s a t)
      \<and> listingCounter s' = listingCounter s + 1
      \<and> listings s' = (listings s)(listingCounter s + 1 :=
           \<lparr>lender = sender, tokenId = tid, pricePerUnit = price,
            availableUnits = n, totalUnits = n, minDuration = minD,
            maxDuration = maxD, createdAt = now, isActive = True\<rparr>))
   \<and> (balanceOf s sender tid < n \<longrightarrow>
        (\<exists>e. createListing s sender now tid price n minD maxD = Inl e)
        \<and> run_tx (\<lambda>s. createListing s sender now tid price n minD maxD) s = s)
   \<and> (balanceOf s sender tid < n \<and> \<not> paused s \<and> 0 < n \<and> 0 < price
        \<and> minRentalDuration s \<le> minD \<and> maxD \<le> maxRentalDuration s \<and> minD \<le> maxD \<longrightarrow>
        createListing s sender now tid price n minD maxD = Inl InsufficientBalance)"
proof (intro conjI impI allI)
  assume ok: "createListing s sender now tid price n minD maxD = Inr s'"
  then have s': "s' = s\<lparr>balanceOf := moveUnits sender (self s) tid n (balanceOf s),
              listingCounter := listingCounter s + 1,
              listings := (listings s)(listingCounter s + 1 :=
                \<lparr>lender = sender, tokenId = tid, pricePerUnit = price,
                 availableUnits = n, totalUnits = n, minDuration = minD,
                 maxDuration = maxD, createdAt = now, isActive = True\<rparr>),
              userListings := (userListings s)(sender :=
                 userListings s sender @ [listingCounter s + 1])\<rparr>"
    and held: "n \<le> balanceOf s sender tid"
    and appr: "self s = sender \<or> isApprovedForAll s sender (self s)"
    by (simp_all add: createListing_Inr_iff)
  show "n \<le> balanceOf s sender tid" by (rule held)
  show "isApprovedForAll s sender (self s)" if "sender \<noteq> self s"
    using appr that by auto
  show "balanceOf s' = moveUnits sender (self s) tid n (balanceOf s)"
    by (simp add: s')
  show "balanceOf s' sender tid = balanceOf s sender tid - n" if "sender \<noteq> self s"
    using that by (simp add: s' moveUnits_apply)
  show "balanceOf s' (self s) tid = balanceOf s (self s) tid + n" if "sender \<noteq> self s"
    using that by (simp add: s' moveUnits_apply)
  show "balanceOf s' a t = balanceOf s a t" if "(a \<noteq> sender \<and> a \<noteq> self s) \<or> t \<noteq> tid" for a t
    using that by (auto simp: s' moveUnits_apply)
  show "listingCounter s' = listingCounter s + 1" by (simp add: s')
  show "listings s' = (listings s)(listingCounter s + 1 :=
           \<lparr>lender = sender, tokenId = tid, pricePerUnit = price,
            availableUnits = n, totalUnits = n, minDuration = minD,
            maxDuration = maxD, createdAt = now, isActive = True\<rparr>)"
    by (simp add: s')
next
  assume short: "balanceOf s sender tid < n"
  have "\<And>y. createListing s sender now tid price n minD maxD \<noteq> Inr y"
    using short by (auto simp: createListing_Inr_iff)
  then show "\<exists>e. createListing s sender now tid price n minD maxD = Inl e"
    by (rule not_Inr_is_Inl)
  then show "run_tx (\<lambda>s. createListing s sender now tid price n minD maxD) s = s"
    by (auto simp: run_tx_def)
next
  assume "balanceOf s sender tid < n \<and> \<not> paused s \<and> 0 < n \<and> 0 < price
        \<and> minRentalDuration s \<le> minD \<and> maxD \<le> maxRentalDuration s \<and> minD \<le> maxD"
  then show "createListing s sender now tid price n minD maxD = Inl InsufficientBalance"
    by (simp add: createListing_def safeTransferFrom_def)
qed

theorem createListing_custody_witness:
  "createListing scenario_deployed 2 1000 7 1 10 86400 864000 = Inr scenario_listed
   \<and> balanceOf scenario_listed 2 7 = 0 \<and> balanceOf scenario_listed 100 7 = 10
   \<and> listingCounter scenario_listed = 1
   \<and> createListing scenario_deployed 2 1000 7 1 11 86400 864000 = Inl InsufficientBalance
   \<and> run_tx (\<lambda>s. createListing s 2 1000 7 1 11 86400 864000) scenario_deployed
       = scenario_deployed"
proof -
  note first = createListing_custody [where s = scenario_deployed and sender = 2
      and now = 1000 and tid = 7 and price = 1 and n = 10 and minD = 86400
      and maxD = 864000 and s' = scenario_listed]
  note second = createListing_custody [where s = scenario_deployed and sender = 2
      and now = 1000 and tid = 7 and price = 1 and n = 11 and minD = 86400
      and maxD = 864000 and s' = scenario_listed]
  have a: "balanceOf scenario_listed 2 7 = 0" "balanceOf scenario_listed 100 7 = 10"
    "listingCounter scenario_listed = 1"
    using first scenario_listed_ok
    by (simp_all add: scenario_deployed_fields moveUnits_apply)
  have b: "createListing scenario_deployed 2 1000 7 1 11 86400 864000 = Inl InsufficientBalance"
    "run_tx (\<lambda>s. createListing s 2 1000 7 1 11 86400 864000) scenario_deployed
       = scenario_deployed"
    using second by (simp_all add: scenario_deployed_fields)
  from a b scenario_listed_ok show ?thesis by simp
qed

subsection \<open>Ending a session (first text)\<close>

lemma endSession_Inr_iff:
  "endSession s sender now sid = Inr s' \<longleftrightarrow>
     sessionIsActive (sessions s sid) \<and> endTime (sessions s sid) \<le> now
     \<and> units (sessions s sid)
          \<le> balanceOf s sender (tokenId (listings s (listingId (sessions s sid))))
     \<and> (self s = sender \<or> isApprovedForAll s sender (self s))
     \<and> (isActive (listings s (listingId (sessions s sid))) \<longrightarrow>
          availableUnits (listings s (listingId (sessions s sid))) + units (sessions s sid)
            < 2 ^ 256)
     \<and> s' = s\<lparr>sessions := (sessions s)(sid := (sessions s sid)\<lparr>sessionIsActive := False\<rparr>),
              balanceOf := moveUnits sender (lender (listings s (listingId (sessions s sid))))
                 (tokenId (listings s (listingId (sessions s sid)))) (units (sessions s sid))
                 (balanceOf s),
              listings :=
                (if isActive (listings s (listingId (sessions s sid)))
                 then (listings s)(listingId (sessions s sid) :=
                        (listings s (listingId (sessions s sid)))
                          \<lparr>availableUnits :=
                             availableUnits (listings s (listingId (sessions s sid)))
                             + units (sessions s sid)\<rparr>)
                 else listings s)\<rparr>"
  by (auto simp: endSession_def safeTransferFrom_def checked_add_def Let_def)

text \<open>
  Claim C1, as amended. For a session that is active, a call of endSession before the end
  time fails with \<open>SessionNotYetEnded\<close> and leaves the state as it was. A call at or after
  the end time succeeds when the caller holds the session's units of the listing's batch
  and has approved the engine on the unit ledger (and, for an active listing,
  \<open>availableUnits + units\<close> stays within \<open>uint256\<close>): it marks the session inactive, moves the
  units from the caller to the lender of the listing and, if the listing is still active,
  raises its availableUnits by the units. Without the balance or the approval the call is
  rejected and the state is the one before the call.
\<close>

theorem endSession_time_gate:
  "sessionIsActive (sessions s sid) \<Longrightarrow>
   (now < endTime (sessions s sid) \<longrightarrow>
      endSession s sender now sid = Inl SessionNotYetEnded
      \<and> run_tx (\<lambda>s. endSession s sender now sid) s = s)
   \<and> (endTime (sessions s sid) \<le> now
      \<and> units (sessions s sid)
           \<le> balanceOf s sender (tokenId (listings s (listingId (sessions s sid))))
      \<and> (sender = self s \<or> isApprovedForAll s sender (self s))
      \<and> (isActive (listings s (listingId (sessions s sid))) \<longrightarrow>
           availableUnits (listings s (listingId (sessions s sid))) + units (sessions s sid)
             < 2 ^ 256) \<longrightarrow>
      (\<exists>s'. endSession s sender now sid = Inr s'
         \<and> sessions s' = (sessions s)(sid := (sessions s sid)\<lparr>sessionIsActive := False\<rparr>)
         \<and> balanceOf s' =
             moveUnits sender (lender (listings s (listingId (sessions s sid))))
               (tokenId (listings s (listingId (sessions s sid)))) (units (sessions s sid))
               (balanceOf s)
         \<and> listings s' =
             (if isActive (listings s (listingId (sessions s sid)))
              then (listings s)(listingId (sessions s sid) :=
                     (listings s (listingId (sessions s sid)))
                       \<lparr>availableUnits :=
                          availableUnits (listings s (listingId (sessions s sid)))
                          + units (sessions s sid)\<rparr>)
              else listings s)
         \<and> ether s' = ether s))
   \<and> (endTime (sessions s sid) \<le> now
      \<and> (balanceOf s sender (tokenId (listings s (listingId (sessions s sid))))
            < units (sessions s sid)
          \<or> (sender \<noteq> self s \<and> \<not> isApprovedForAll s sender (self s))) \<longrightarrow>
      (\<exists>e. endSession s sender now sid = Inl e)
      \<and> run_tx (\<lambda>s. endSession s sender now sid) s = s)"
proof (intro conjI impI)
  assume act: "sessionIsActive (sessions s sid)" and early: "now < endTime (sessions s sid)"
  then show a: "endSession s sender now sid = Inl SessionNotYetEnded"
    by (simp add: endSession_def)
  then show "run_tx (\<lambda>s. endSession s sender now sid) s = s"
    by (simp add: run_tx_def)
next
  assume act: "sessionIsActive (sessions s sid)"
    and ok: "endTime (sessions s sid) \<le> now
      \<and> units (sessions s sid)
           \<le> balanceOf s sender (tokenId (listings s (listingId (sessions s sid))))
      \<and> (sender = self s \<or> isApprovedForAll s sender (self s))
      \<and> (isActive (listings s (listingId (sessions s sid))) \<longrightarrow>
           availableUnits (listings s (listingId (sessions s sid))) + units (sessions s sid)
             < 2 ^ 256)"
  let ?s' = "s\<lparr>sessions := (sessions s)(sid := (sessions s sid)\<lparr>sessionIsActive := False\<rparr>),
              balanceOf := moveUnits sender (lender (listings s (listingId (sessions s sid))))
                 (tokenId (listings s (listingId (sessions s sid)))) (units (sessions s sid))
                 (balanceOf s),
              listings :=
                (if isActive (listings s (listingId (sessions s sid)))
                 then (listings s)(listingId (sessions s sid) :=
                        (listings s (listingId (sessions s sid)))
                          \<lparr>availableUnits :=
                             availableUnits (listings s (listingId (sessions s sid)))
                             + units (sessions s sid)\<rparr>)
                 else listings s)\<rparr>"
  have "endSession s sender now sid = Inr ?s'"
    unfolding endSession_Inr_iff using act ok by auto
  then show "\<exists>s'. endSession s sender now sid = Inr s'
         \<and> sessions s' = (sessions s)(sid := (sessions s sid)\<lparr>sessionIsActive := False\<rparr>)
         \<and> balanceOf s' =
             moveUnits sender (lender (listings s (listingId (sessions s sid))))
               (tokenId (listings s (listingId (sessions s sid)))) (units (sessions s sid))
               (balanceOf s)
         \<and> listings s' =
             (if isActive (listings s (listingId (sessions s sid)))
              then (listings s)(listingId (sessions s sid) :=
                     (listings s (listingId (sessions s sid)))
                       \<lparr>availableUnits :=
                          availableUnits (listings s (listingId (sessions s sid)))
                          + units (sessions s sid)\<rparr>)
              else listings s)
         \<and> ether s' = ether s"
    by (intro exI [of _ ?s']) simp
next
  assume bad: "endTime (sessions s sid) \<le> now
      \<and> (balanceOf s sender (tokenId (listings s (listingId (sessions s sid))))
            < units (sessions s sid)
          \<or> (sender \<noteq> self s \<and> \<not> isApprovedForAll s sender (self s)))"
  have "\<And>y. endSession s sender now sid \<noteq> Inr y"
    using bad by (auto simp: endSession_Inr_iff)
  then show "\<exists>e. endSession s sender now sid = Inl e"
    by (rule not_Inr_is_Inl)
  then show "run_tx (\<lambda>s. endSession s sender now sid) s = s"
    by (auto simp: run_tx_def)
qed

theorem endSession_time_gate_witness:
  "sessionIsActive (sessions scenario_approved 1)
   \<and> endSession scenario_approved 3 88399 1 = Inl SessionNotYetEnded
   \<and> run_tx (\<lambda>s. endSession s 3 88399 1) scenario_approved = scenario_approved
   \<and> endSession scenario_approved 3 88400 1 = Inr scenario_returned
   \<and> \<not> sessionIsActive (sessions scenario_returned 1)
   \<and> availableUnits (listings scenario_returned 1) = 10
   \<and> balanceOf scenario_returned 2 7 = 2 \<and> balanceOf scenario_returned 3 7 = 0
   \<and> run_tx (\<lambda>s. endSession s 3 88400 1) scenario_rented = scenario_rented"
proof -
  have act: "sessionIsActive (sessions scenario_approved 1)"
    unfolding scenario_approved_fields by simp
  have act': "sessionIsActive (sessions scenario_rented 1)"
    unfolding scenario_rented_fields by simp
  note early = endSession_time_gate [OF act, where sender = 3 and now = 88399]
  note late = endSession_time_gate [OF act, where sender = 3 and now = 88400]
  note unapproved = endSession_time_gate [OF act', where sender = 3 and now = 88400]
  have a: "endSession scenario_approved 3 88399 1 = Inl SessionNotYetEnded"
    "run_tx (\<lambda>s. endSession s 3 88399 1) scenario_approved = scenario_approved"
    using early unfolding scenario_approved_fields by simp_all
  have "\<exists>s'. endSession scenario_approved 3 88400 1 = Inr s'"
    using late by (simp add: scenario_approved_fields [unfolded One_nat_def]) blast
  then have ok: "endSession scenario_approved 3 88400 1 = Inr scenario_returned"
    by (auto simp: scenario_returned_def run_tx_def)
  have b: "\<not> sessionIsActive (sessions scenario_returned 1)"
      "availableUnits (listings scenario_returned 1) = 10"
      "balanceOf scenario_returned 2 7 = 2" "balanceOf scenario_returned 3 7 = 0"
    unfolding scenario_returned_fields by simp_all
  have c: "run_tx (\<lambda>s. endSession s 3 88400 1) scenario_rented = scenario_rented"
    using unapproved unfolding scenario_rented_fields by simp
  from act a b c ok show ?thesis by simp
qed

text \<open>
  The call the claim as stated promises to succeed: the borrower of the open session
  calls endSession at the end time, holding the borrowed units, without having approved
  the engine on the unit ledger. The engine's transfer on the borrower's behalf is refused.
\<close>

theorem endSession_unapproved_counterexample:
  "reachable scenario_rented
   \<and> sessionIsActive (sessions scenario_rented 1)
   \<and> borrower (sessions scenario_rented 1) = 3
   \<and> endTime (sessions scenario_rented 1) \<le> 88400
   \<and> units (sessions scenario_rented 1) \<le> balanceOf scenario_rented 3 7
   \<and> endSession scenario_rented 3 88400 1 = Inl Unauthorized"
  using scenario_rented_reachable
  by (simp add: scenario_rented_def scenario_listed_def scenario_deployed_def eval_defs)

subsection \<open>Cancelling a listing (first text)\<close>

lemma cancelListing_Inr_iff:
  "cancelListing s sender lid = Inr s' \<longleftrightarrow>
     lender (listings s lid) = sender \<and> isActive (listings s lid)
     \<and> availableUnits (listings s lid) \<le> balanceOf s (self s) (tokenId (listings s lid))
     \<and> s' = s\<lparr>listings := (listings s)(lid := (listings s lid)\<lparr>isActive := False\<rparr>),
              balanceOf := moveUnits (self s) sender (tokenId (listings s lid))
                 (availableUnits (listings s lid)) (balanceOf s)\<rparr>"
  by (auto simp: cancelListing_def safeTransferFrom_def Let_def moveUnits_zero)

text \<open>
  What cancelListing does, by cases on the engine's balance of the listing's batch: when
  it covers availableUnits, the call by the lender clears the flag and moves exactly
  availableUnits from the engine to the lender, no other balance and no session changing;
  when it does not, the ledger refuses the transfer and the call is rejected.
\<close>

lemma cancelListing_effects:
  "isActive (listings s lid) \<Longrightarrow> lender (listings s lid) = sender \<Longrightarrow>
   (availableUnits (listings s lid) \<le> balanceOf s (self s) (tokenId (listings s lid)) \<longrightarrow>
      (\<exists>s'. cancelListing s sender lid = Inr s'
         \<and> listings s' = (listings s)(lid := (listings s lid)\<lparr>isActive := False\<rparr>)
         \<and> balanceOf s' =
              moveUnits (self s) sender (tokenId (listings s lid))
                (availableUnits (listings s lid)) (balanceOf s)
         \<and> (sender \<noteq> self s \<longrightarrow>
               balanceOf s' sender (tokenId (listings s lid))
                 = balanceOf s sender (tokenId (listings s lid)) + availableUnits (listings s lid)
               \<and> balanceOf s' (self s) (tokenId (listings s lid))
                 = balanceOf s (self s) (tokenId (listings s lid))
                   - availableUnits (listings s lid))
         \<and> (\<forall>a t. (a \<noteq> sender \<and> a \<noteq> self s) \<or> t \<noteq> tokenId (listings s lid)
                \<longrightarrow> balanceOf s' a t = balanceOf s a t)
         \<and> sessions s' = sessions s))
   \<and> (balanceOf s (self s) (tokenId (listings s lid)) < availableUnits (listings s lid) \<longrightarrow>
        cancelListing s sender lid = Inl InsufficientBalance
        \<and> run_tx (\<lambda>s. cancelListing s sender lid) s = s)"
proof (intro conjI impI)
  assume act: "isActive (listings s lid)" and own: "lender (listings s lid) = sender"
    and held: "availableUnits (listings s lid)
                 \<le> balanceOf s (self s) (tokenId (listings s lid))"
  let ?s' = "s\<lparr>listings := (listings s)(lid := (listings s lid)\<lparr>isActive := False\<rparr>),
              balanceOf := moveUnits (self s) sender (tokenId (listings s lid))
                 (availableUnits (listings s lid)) (balanceOf s)\<rparr>"
  have ok: "cancelListing s sender lid = Inr ?s'"
    unfolding cancelListing_Inr_iff using act own held by simp
  show "\<exists>s'. cancelListing s sender lid = Inr s'
         \<and> listings s' = (listings s)(lid := (listings s lid)\<lparr>isActive := False\<rparr>)
         \<and> balanceOf s' =
              moveUnits (self s) sender (tokenId (listings s lid))
                (availableUnits (listings s lid)) (balanceOf s)
         \<and> (sender \<noteq> self s \<longrightarrow>
               balanceOf s' sender (tokenId (listings s lid))
                 = balanceOf s sender (tokenId (listings s lid)) + availableUnits (listings s lid)
               \<and> balanceOf s' (self s) (tokenId (listings s lid))
                 = balanceOf s (self s) (tokenId (listings s lid))
                   - availableUnits (listings s lid))
         \<and> (\<forall>a t. (a \<noteq> sender \<and> a \<noteq> self s) \<or> t \<noteq> tokenId (listings s lid)
                \<longrightarrow> balanceOf s' a t = balanceOf s a t)
         \<and> sessions s' = sessions s"
    using ok by (intro exI [of _ ?s']) (auto simp: moveUnits_apply)
next
  assume act: "isActive (listings s lid)" and own: "lender (listings s lid) = sender"
    and short: "balanceOf s (self s) (tokenId (listings s lid))
                  < availableUnits (listings s lid)"
  then show a: "cancelListing s sender lid = Inl InsufficientBalance"
    by (auto simp: cancelListing_def safeTransferFrom_def Let_def)
  then show "run_tx (\<lambda>s. cancelListing s sender lid) s = s"
    by (simp add: run_tx_def)
qed

lemma cancelListing_effects_example:
  "isActive (listings scenario_approved 1) \<and> lender (listings scenario_approved 1) = 2
   \<and> cancelListing scenario_approved 2 1 = Inr scenario_cancelled
   \<and> \<not> isActive (listings scenario_cancelled 1)
   \<and> balanceOf scenario_cancelled 2 7 = 8 \<and> balanceOf scenario_cancelled 100 7 = 0
   \<and> balanceOf scenario_cancelled 3 7 = 2
   \<and> isActive (listings scenario_returned 1) \<and> lender (listings scenario_returned 1) = 2
   \<and> cancelListing scenario_returned 2 1 = Inl InsufficientBalance
   \<and> run_tx (\<lambda>s. cancelListing s 2 1) scenario_returned = scenario_returned"
proof -
  have act: "isActive (listings scenario_approved 1)"
    and own: "lender (listings scenario_approved 1) = 2"
    unfolding scenario_approved_fields by simp_all
  have act': "isActive (listings scenario_returned 1)"
    and own': "lender (listings scenario_returned 1) = 2"
    unfolding scenario_returned_fields by simp_all
  note covered = cancelListing_effects [OF act own]
  note short = cancelListing_effects [OF act' own']
  have "\<exists>s'. cancelListing scenario_approved 2 1 = Inr s'"
    using covered by (simp add: scenario_approved_fields [unfolded One_nat_def]) blast
  then have ok: "cancelListing scenario_approved 2 1 = Inr scenario_cancelled"
    by (auto simp: scenario_cancelled_def run_tx_def)
  have a: "\<not> isActive (listings scenario_cancelled 1)"
    "balanceOf scenario_cancelled 2 7 = 8" "balanceOf scenario_cancelled 100 7 = 0"
    "balanceOf scenario_cancelled 3 7 = 2"
    unfolding scenario_cancelled_fields by simp_all
  have b: "cancelListing scenario_returned 2 1 = Inl InsufficientBalance"
    "run_tx (\<lambda>s. cancelListing s 2 1) scenario_returned = scenario_returned"
    using short by (simp_all add: scenario_returned_fields [unfolded One_nat_def])
  from act own ok a act' own' b show ?thesis by simp
qed

lemma scenario_returned_no_session:
  "startSession scenario_returned 3 800000 90000 1 9 86400 = Inl InsufficientBalance"
  by (simp add: scenario_returned_def scenario_approved_def scenario_rented_def
        scenario_listed_def scenario_deployed_def eval_defs)

text \<open>
  Claim C4 on cancelListing of the first text, after an ordinary rental. The lender lists
  10 units, the borrower rents 2 and returns them with endSession at the end time.
  endSession sends the 2 units to the lender and also raises availableUnits from 8 to 10,
  while the engine still holds 8 units of the batch. The listing is active and the caller
  is its lender, yet cancelListing does not set it inactive and returns no units: the
  transfer of the 10 units out of custody is refused, the call is rejected and the listing
  stays active. For the same reason a session for 9 of the 10 units shown as available
  cannot start.
\<close>

theorem cancelListing_after_return:
  "reachable scenario_returned
   \<and> endSession scenario_approved 3 88400 1 = Inr scenario_returned
   \<and> availableUnits (listings scenario_approved 1) = 8
   \<and> balanceOf scenario_approved 100 7 = 8
   \<and> isActive (listings scenario_returned 1) \<and> lender (listings scenario_returned 1) = 2
   \<and> availableUnits (listings scenario_returned 1) = 10
   \<and> balanceOf scenario_returned 100 7 = 8
   \<and> balanceOf scenario_returned 2 7 = 2
   \<and> cancelListing scenario_returned 2 1 = Inl InsufficientBalance
   \<and> isActive (listings (run_tx (\<lambda>s. cancelListing s 2 1) scenario_returned) 1)
   \<and> startSession scenario_returned 3 800000 90000 1 9 86400 = Inl InsufficientBalance"
proof -
  have "cancelListing scenario_returned 2 1 = Inl InsufficientBalance"
    by (simp add: cancelListing_def safeTransferFrom_def Let_def
          scenario_returned_fields [unfolded One_nat_def])
  then show ?thesis
    using scenario_returned_reachable scenario_returned_ok scenario_returned_no_session
    by (simp add: run_tx_def scenario_returned_fields [unfolded One_nat_def]
          scenario_approved_fields [unfolded One_nat_def])
qed

subsection \<open>Who may end a session\<close>

lemma endSession_pr_unauthorized:
  assumes "sessionIsActive (sessions s sid)"
    and "sender \<noteq> borrower (sessions s sid)" and "sender \<noteq> owner s"
  shows "endSession_pr s sender now sid = Inl NotAuthorizedToEndSession"
  using assms by (simp add: endSession_pr_def)

text \<open>
  Claim C8 on endSession of the first text: the bystander (address 4), who is neither the
  borrower (address 3) nor the owner (address 1) and no operator of the borrower, ends
  the borrower's session at its end time. The call succeeds: the session is closed, 2 of
  the bystander's own units go to the lender, and the borrower keeps the borrowed units.
\<close>

theorem endSession_by_bystander:
  "reachable scenario_rented
   \<and> sessionIsActive (sessions scenario_rented 1)
   \<and> borrower (sessions scenario_rented 1) = 3 \<and> owner scenario_rented = 1
   \<and> \<not> isApprovedForAll scenario_rented 3 4
   \<and> endSession scenario_rented 4 88400 1 = Inr scenario_bystander
   \<and> \<not> sessionIsActive (sessions scenario_bystander 1)
   \<and> balanceOf scenario_bystander 4 7 = 3
   \<and> balanceOf scenario_bystander 3 7 = 2
   \<and> balanceOf scenario_bystander 2 7 = 2"
  using scenario_rented_reachable
  by (simp add: scenario_bystander_def scenario_rented_def scenario_listed_def
        scenario_deployed_def eval_defs)

subsection \<open>Ending a session (second text)\<close>

lemma settlement_Inr:
  "settlement s now sid = Inr (paid, owed) \<longleftrightarrow>
     startTime (sessions s sid) \<le> endTime (sessions s sid)
     \<and> (now \<le> endTime (sessions s sid) \<longrightarrow> startTime (sessions s sid) \<le> now)
     \<and> pricePerUnit (listings s (listingId (sessions s sid))) * units (sessions s sid) < 2 ^ 256
     \<and> paid < 2 ^ 256 \<and> owed < 2 ^ 256
     \<and> paid = pricePerUnit (listings s (listingId (sessions s sid))) * units (sessions s sid)
               * (endTime (sessions s sid) - startTime (sessions s sid))
     \<and> owed = pricePerUnit (listings s (listingId (sessions s sid))) * units (sessions s sid)
               * (if endTime (sessions s sid) < now
                  then endTime (sessions s sid) - startTime (sessions s sid)
                  else now - startTime (sessions s sid))"
  by (auto simp: settlement_def checked_sub_def checked_mul_def Let_def)

lemma settlement_unused:
  assumes "settlement s now sid = Inr (paid, owed)" and "now < endTime (sessions s sid)"
  shows "paid - owed =
           pricePerUnit (listings s (listingId (sessions s sid))) * units (sessions s sid)
           * (endTime (sessions s sid) - now)"
proof -
  let ?pu = "pricePerUnit (listings s (listingId (sessions s sid))) * units (sessions s sid)"
  let ?a = "startTime (sessions s sid)" and ?b = "endTime (sessions s sid)"
  from assms have le: "?a \<le> now" "now < ?b"
    and p: "paid = ?pu * (?b - ?a)" and o: "owed = ?pu * (now - ?a)"
    by (auto simp: settlement_Inr)
  have "paid - owed = ?pu * ((?b - ?a) - (now - ?a))"
    unfolding p o by (rule diff_mult_distrib2 [symmetric])
  also have "(?b - ?a) - (now - ?a) = ?b - now" using le by arith
  finally show ?thesis .
qed

lemma endSession_pr_Inr_D:
  assumes ok: "endSession_pr s sender now sid = Inr s'"
  shows "sessionIsActive (sessions s sid)"
    and "sender = borrower (sessions s sid) \<or> sender = owner s"
    and "\<exists>paid owed platformRefund lenderRefund.
           settlement s now sid = Inr (paid, owed)
         \<and> (owed < paid \<longrightarrow>
              splitPayment (paid - owed) (platformFee s) = Inr (platformRefund, lenderRefund))
         \<and> (\<not> owed < paid \<longrightarrow> platformRefund = 0 \<and> lenderRefund = 0)
         \<and> s' = s\<lparr>sessions := (sessions s)(sid := (sessions s sid)\<lparr>sessionIsActive := False\<rparr>),
                  balanceOf := moveUnits (self s)
                     (lender (listings s (listingId (sessions s sid))))
                     (tokenId (listings s (listingId (sessions s sid))))
                     (units (sessions s sid)) (balanceOf s),
                  ether := moveEther (self s) (platformWallet s) platformRefund
                          (moveEther (self s) (lender (listings s (listingId (sessions s sid))))
                             lenderRefund (ether s))\<rparr>"
proof -
  let ?S = "sessions s sid"
  let ?L = "listings s (listingId ?S)"
  let ?s1 = "s\<lparr>sessions := (sessions s)(sid := ?S\<lparr>sessionIsActive := False\<rparr>)\<rparr>"
  from ok show act: "sessionIsActive ?S"
    by (auto simp: endSession_pr_def Let_def split: if_splits)
  from ok act show auth: "sender = borrower ?S \<or> sender = owner s"
    by (auto simp: endSession_pr_def Let_def split: if_splits)
  have set_eq: "settlement ?s1 now sid = settlement s now sid"
    by (auto simp: settlement_def Let_def split: sum.splits)
  from ok act auth obtain paid owed where st: "settlement s now sid = Inr (paid, owed)"
    by (auto simp: endSession_pr_def Let_def set_eq split: sum.splits)
  from ok act auth st obtain s2 where
    tr: "safeTransferFrom ?s1 (self s) (self s) (lender ?L) (tokenId ?L) (units ?S) = Inr s2"
    by (auto simp: endSession_pr_def Let_def set_eq split: sum.splits)
  then have s2: "s2 = ?s1\<lparr>balanceOf := moveUnits (self s) (lender ?L) (tokenId ?L) (units ?S)
                              (balanceOf s)\<rparr>"
    by (simp add: safeTransferFrom_Inr)
  show "\<exists>paid owed platformRefund lenderRefund.
           settlement s now sid = Inr (paid, owed)
         \<and> (owed < paid \<longrightarrow>
              splitPayment (paid - owed) (platformFee s) = Inr (platformRefund, lenderRefund))
         \<and> (\<not> owed < paid \<longrightarrow> platformRefund = 0 \<and> lenderRefund = 0)
         \<and> s' = s\<lparr>sessions := (sessions s)(sid := ?S\<lparr>sessionIsActive := False\<rparr>),
                  balanceOf := moveUnits (self s) (lender ?L) (tokenId ?L) (units ?S)
                                 (balanceOf s),
                  ether := moveEther (self s) (platformWallet s) platformRefund
                          (moveEther (self s) (lender ?L) lenderRefund (ether s))\<rparr>"
  proof (cases "owed < paid")
    case False
    with ok act auth st tr have "s' = s2"
      by (auto simp: endSession_pr_def Let_def set_eq)
    then have "s' = s\<lparr>sessions := (sessions s)(sid := ?S\<lparr>sessionIsActive := False\<rparr>),
                  balanceOf := moveUnits (self s) (lender ?L) (tokenId ?L) (units ?S)
                                 (balanceOf s),
                  ether := moveEther (self s) (platformWallet s) 0
                          (moveEther (self s) (lender ?L) 0 (ether s))\<rparr>"
      by (simp add: s2 moveEther_zero)
    with st False show ?thesis by blast
  next
    case True
    from ok act auth st tr True obtain pr lr where
      sp: "splitPayment (paid - owed) (platformFee s2) = Inr (pr, lr)"
      by (auto simp: endSession_pr_def Let_def set_eq checked_sub_def split: sum.splits)
    from ok act auth st tr True sp obtain s3 where
      t1: "(if 0 < lr then transferEther s2 (lender ?L) lr else Inr s2) = Inr s3"
      by (auto simp: endSession_pr_def Let_def set_eq checked_sub_def
               split: sum.splits if_splits)
    from ok act auth st tr True sp t1 have
      t2: "(if 0 < pr then transferEther s3 (platformWallet s3) pr else Inr s3) = Inr s'"
      by (auto simp: endSession_pr_def Let_def set_eq checked_sub_def
               split: sum.splits if_splits)
    have s3: "s3 = s2\<lparr>ether := moveEther (self s2) (lender ?L) lr (ether s2)\<rparr>"
      using t1 by (rule optional_transfer_Inr)
    have "s' = s3\<lparr>ether := moveEther (self s3) (platformWallet s3) pr (ether s3)\<rparr>"
      using t2 by (rule optional_transfer_Inr)
    then have "s' = s\<lparr>sessions := (sessions s)(sid := ?S\<lparr>sessionIsActive := False\<rparr>),
                  balanceOf := moveUnits (self s) (lender ?L) (tokenId ?L) (units ?S)
                                 (balanceOf s),
                  ether := moveEther (self s) (platformWallet s) pr
                          (moveEther (self s) (lender ?L) lr (ether s))\<rparr>"
      by (simp add: s3 s2)
    moreover have "splitPayment (paid - owed) (platformFee s) = Inr (pr, lr)"
      using sp by (simp add: s2)
    ultimately show ?thesis using st True by blast
  qed
qed

lemma moveEther_ge:
  assumes "a \<noteq> src"
  shows "bal a \<le> moveEther src dst amount bal a"
  using assms by (simp add: moveEther_def Let_def)

text \<open>
  The amounts of an early closure by endSession of the second text: the unused portion of
  the payment is \<open>pricePerUnit * units * (endTime - now)\<close>, a positive unused portion is
  split by the platform fee rate with the floor rule, and the lender's ether balance does
  not drop.
\<close>

lemma endSession_pr_amounts:
  "endSession_pr s sender now sid = Inr s' \<Longrightarrow> now < endTime (sessions s sid) \<Longrightarrow>
   (\<exists>paid owed.
      settlement s now sid = Inr (paid, owed)
      \<and> paid - owed =
          pricePerUnit (listings s (listingId (sessions s sid))) * units (sessions s sid)
          * (endTime (sessions s sid) - now)
      \<and> (0 < paid - owed \<longrightarrow>
           (\<exists>platformRefund lenderRefund.
              splitPayment (paid - owed) (platformFee s) = Inr (platformRefund, lenderRefund)
              \<and> platformRefund = (paid - owed) * platformFee s div 10000
              \<and> lenderRefund = (paid - owed) - platformRefund
              \<and> platformRefund + lenderRefund = paid - owed)))
   \<and> (lender (listings s (listingId (sessions s sid))) \<noteq> self s \<longrightarrow>
        ether s (lender (listings s (listingId (sessions s sid))))
          \<le> ether s' (lender (listings s (listingId (sessions s sid)))))"
proof -
  assume ok: "endSession_pr s sender now sid = Inr s'"
    and early: "now < endTime (sessions s sid)"
  let ?L = "listings s (listingId (sessions s sid))"
  from endSession_pr_Inr_D(3) [OF ok] obtain paid owed pr lr where
    st: "settlement s now sid = Inr (paid, owed)"
    and sp: "owed < paid \<longrightarrow> splitPayment (paid - owed) (platformFee s) = Inr (pr, lr)"
    and s': "s' = s\<lparr>sessions := (sessions s)(sid := (sessions s sid)\<lparr>sessionIsActive := False\<rparr>),
                  balanceOf := moveUnits (self s) (lender ?L) (tokenId ?L)
                     (units (sessions s sid)) (balanceOf s),
                  ether := moveEther (self s) (platformWallet s) pr
                          (moveEther (self s) (lender ?L) lr (ether s))\<rparr>"
    by blast
  have eth: "ether s' = moveEther (self s) (platformWallet s) pr
                          (moveEther (self s) (lender ?L) lr (ether s))"
    by (simp add: s')
  have unused: "paid - owed = pricePerUnit ?L * units (sessions s sid)
                  * (endTime (sessions s sid) - now)"
    using st early by (rule settlement_unused)
  have split: "\<exists>platformRefund lenderRefund.
              splitPayment (paid - owed) (platformFee s) = Inr (platformRefund, lenderRefund)
              \<and> platformRefund = (paid - owed) * platformFee s div 10000
              \<and> lenderRefund = (paid - owed) - platformRefund
              \<and> platformRefund + lenderRefund = paid - owed" if "0 < paid - owed"
  proof -
    define r where "r = paid - owed"
    from that sp have sr: "splitPayment r (platformFee s) = Inr (pr, lr)"
      by (simp add: r_def)
    then have "pr = r * platformFee s div 10000 \<and> lr = r - pr \<and> pr + lr = r"
      by (auto simp: splitPayment_Inr)
    with sr show ?thesis unfolding r_def by blast
  qed
  have kept: "ether s (lender ?L) \<le> ether s' (lender ?L)" if "lender ?L \<noteq> self s"
  proof -
    have "ether s (lender ?L) \<le> moveEther (self s) (lender ?L) lr (ether s) (lender ?L)"
      using that by (rule moveEther_ge)
    also have "\<dots> \<le> ether s' (lender ?L)"
      unfolding eth using that by (rule moveEther_ge)
    finally show ?thesis .
  qed
  have "settlement s now sid = Inr (paid, owed)
      \<and> paid - owed = pricePerUnit ?L * units (sessions s sid)
                         * (endTime (sessions s sid) - now)
      \<and> (0 < paid - owed \<longrightarrow>
           (\<exists>platformRefund lenderRefund.
              splitPayment (paid - owed) (platformFee s) = Inr (platformRefund, lenderRefund)
              \<and> platformRefund = (paid - owed) * platformFee s div 10000
              \<and> lenderRefund = (paid - owed) - platformRefund
              \<and> platformRefund + lenderRefund = paid - owed))"
    using st unused split by (intro conjI impI)
  then have "\<exists>paid owed.
      settlement s now sid = Inr (paid, owed)
      \<and> paid - owed = pricePerUnit ?L * units (sessions s sid)
                         * (endTime (sessions s sid) - now)
      \<and> (0 < paid - owed \<longrightarrow>
           (\<exists>platformRefund lenderRefund.
              splitPayment (paid - owed) (platformFee s) = Inr (platformRefund, lenderRefund)
              \<and> platformRefund = (paid - owed) * platformFee s div 10000
              \<and> lenderRefund = (paid - owed) - platformRefund
              \<and> platformRefund + lenderRefund = paid - owed))"
    by (intro exI)
  with kept show ?thesis by (intro conjI impI)
qed

lemma endSession_pr_amounts_example:
  "endSession_pr scenario_pr_rented 3 2040 1 = Inr scenario_pr_closed
   \<and> 2040 < endTime (sessions scenario_pr_rented 1)
   \<and> settlement scenario_pr_rented 2040 1 = Inr (10000, 4000)
   \<and> splitPayment 6000 (platformFee scenario_pr_rented) = Inr (300, 5700)
   \<and> ether scenario_pr_rented 2 \<le> ether scenario_pr_closed 2"
proof -
  have early: "2040 < endTime (sessions scenario_pr_rented 1)"
    unfolding scenario_pr_fields by simp
  note inst = endSession_pr_amounts [OF scenario_pr_closed_ok early]
  have st: "settlement scenario_pr_rented 2040 1 = Inr (10000, 4000)"
    by (rule scenario_pr_fields)
  from inst have "ether scenario_pr_rented 2 \<le> ether scenario_pr_closed 2"
    by (simp add: scenario_pr_fields [unfolded One_nat_def])
  moreover from inst st
  have "splitPayment 6000 (platformFee scenario_pr_rented) = Inr (300, 5700)"
    by (simp add: scenario_pr_fields [unfolded One_nat_def])
  ultimately show ?thesis using scenario_pr_closed_ok early st by simp
qed

lemma scenario_pr_plain_fields:
  "sessionIsActive (sessions scenario_pr_plain_rented 1)"
  "borrower (sessions scenario_pr_plain_rented 1) = 3"
  "endTime (sessions scenario_pr_plain_rented 1) = 2100"
  "ether scenario_pr_plain_rented 100 = 0"
  "ether scenario_pr_plain_rented 1 = 500" "ether scenario_pr_plain_rented 2 = 9500"
  "endSession_pr scenario_pr_plain_rented 3 2040 1 = Inl EtherTransferFailed"
  by (simp_all add: scenario_pr_plain_rented_def scenario_pr_plain_listed_def
        scenario_deployed_def eval_defs eval_pr_defs)

text \<open>
  Claim C6 on endSession of the second text. A session booked for 100 seconds at 100 wei
  per second, fee 500 basis points, has paid 10000 wei at the start: 500 to the platform
  wallet and 9500 to the lender. The borrower closes it after 40 seconds, so 4000 is earned
  and 6000 is unused. The code splits the unused 6000 into 300 and 5700, and pays the 5700
  to the lender and the 300 to the platform wallet out of the engine's own ether; the
  borrower receives nothing back. Over the session the platform wallet holds 800, not 200
  (the fee rate of the earned 4000), and the lender 15200. When the engine holds no ether
  of its own, the same early closure is rejected.
\<close>

theorem endSession_pr_refund_misdirected:
  "endSession_pr scenario_pr_rented 3 2040 1 = Inr scenario_pr_closed
   \<and> borrower (sessions scenario_pr_rented 1) = 3
   \<and> lender (listings scenario_pr_rented 1) = 2
   \<and> platformWallet scenario_pr_rented = 1
   \<and> platformFee scenario_pr_rented = 500
   \<and> 2040 < endTime (sessions scenario_pr_rented 1)
   \<and> settlement scenario_pr_rented 2040 1 = Inr (10000, 4000)
   \<and> ether scenario_pr_closed 3 = ether scenario_pr_rented 3
   \<and> ether scenario_pr_closed 2 = ether scenario_pr_rented 2 + 5700
   \<and> ether scenario_pr_closed 1 = ether scenario_pr_rented 1 + 300
   \<and> ether scenario_pr_closed 100 + 6000 = ether scenario_pr_rented 100
   \<and> ether scenario_pr_closed 1 - ether scenario_pr_listed 1 = 800
   \<and> (ether scenario_pr_closed 1 - ether scenario_pr_listed 1) * 10000
        \<noteq> platformFee scenario_pr_rented * 4000
   \<and> ether scenario_pr_closed 2 - ether scenario_pr_listed 2 = 15200
   \<and> sessionIsActive (sessions scenario_pr_plain_rented 1)
   \<and> borrower (sessions scenario_pr_plain_rented 1) = 3
   \<and> 2040 < endTime (sessions scenario_pr_plain_rented 1)
   \<and> endSession_pr scenario_pr_plain_rented 3 2040 1 = Inl EtherTransferFailed"
  using scenario_pr_closed_ok
  by (simp add: scenario_pr_fields [unfolded One_nat_def]
        scenario_pr_plain_fields [unfolded One_nat_def])

subsection \<open>Ending a session twice\<close>

text \<open>
  Claim C7. After a successful endSession, of either text, every further endSession on the
  same session, by any caller at any time, fails with \<open>SessionNotActive\<close>, and the state
  after the failed call is the state after the successful one.
\<close>

theorem endSession_once:
  "(endSession s sender now sid = Inr s' \<longrightarrow>
      endSession s' sender' now' sid = Inl SessionNotActive
      \<and> run_tx (\<lambda>s. endSession s sender' now' sid) s' = s')
   \<and> (endSession_pr s sender now sid = Inr s' \<longrightarrow>
      endSession_pr s' sender' now' sid = Inl SessionNotActive
      \<and> run_tx (\<lambda>s. endSession_pr s sender' now' sid) s' = s')"
proof (intro conjI impI)
  assume "endSession s sender now sid = Inr s'"
  then have "\<not> sessionIsActive (sessions s' sid)"
    by (auto simp: endSession_Inr_iff)
  then show a: "endSession s' sender' now' sid = Inl SessionNotActive"
    by (simp add: endSession_def)
  then show "run_tx (\<lambda>s. endSession s sender' now' sid) s' = s'"
    by (simp add: run_tx_def)
next
  assume ok: "endSession_pr s sender now sid = Inr s'"
  from endSession_pr_Inr_D(3) [OF ok] have "\<not> sessionIsActive (sessions s' sid)"
    by auto
  then show a: "endSession_pr s' sender' now' sid = Inl SessionNotActive"
    by (simp add: endSession_pr_def)
  then show "run_tx (\<lambda>s. endSession_pr s sender' now' sid) s' = s'"
    by (simp add: run_tx_def)
qed

theorem endSession_once_witness:
  "endSession scenario_approved 3 88400 1 = Inr scenario_returned
   \<and> endSession scenario_returned 3 90000 1 = Inl SessionNotActive
   \<and> run_tx (\<lambda>s. endSession s 3 90000 1) scenario_returned = scenario_returned
   \<and> endSession_pr scenario_pr_rented 3 2040 1 = Inr scenario_pr_closed
   \<and> endSession_pr scenario_pr_closed 3 2050 1 = Inl SessionNotActive
   \<and> run_tx (\<lambda>s. endSession_pr s 3 2050 1) scenario_pr_closed = scenario_pr_closed"
  using endSession_once [where s = scenario_approved and sender = 3 and now = 88400
      and sid = 1 and s' = scenario_returned and sender' = 3 and now' = 90000]
    endSession_once [where s = scenario_pr_rented and sender = 3 and now = 2040
      and sid = 1 and s' = scenario_pr_closed and sender' = 3 and now' = 2050]
    scenario_returned_ok scenario_pr_closed_ok
  by blast

subsection \<open>The page of active listings\<close>

lemma countActive_Inr:
  "countActive s mx i count = Inr r \<Longrightarrow>
   r = count + length (filter (\<lambda>j. isActive (listings s j)) [i..<Suc mx])"
proof (induction s mx i count rule: countActive.induct)
  case (1 s mx i count)
  note step = "1.prems" [unfolded countActive.simps [of s mx i count]]
  show ?case
  proof (cases "i \<le> mx")
    case False
    with step show ?thesis by (simp del: upt_Suc)
  next
    case True
    then have cons: "[i..<Suc mx] = i # [Suc i..<Suc mx]"
      by (simp add: upt_conv_Cons del: upt_Suc)
    from step True obtain count' where
      c: "(if isActive (listings s i) then checked_add count 1 else Inr count) = Inr count'"
      by (auto split: sum.splits)
    from step True c obtain i' where i': "checked_add i 1 = Inr i'"
      by (auto split: sum.splits)
    from step True c i' have rec: "countActive s mx i' count' = Inr r"
      by simp
    have "r = count' + length (filter (\<lambda>j. isActive (listings s j)) [i'..<Suc mx])"
      using "1.IH" [OF True c i' rec] .
    moreover have "i' = Suc i" using i' by (simp add: checked_add_Inr)
    moreover have "count' = (if isActive (listings s i) then count + 1 else count)"
      using c by (auto simp: checked_add_Inr split: if_splits)
    ultimately show ?thesis by (simp add: cons del: upt_Suc)
  qed
qed

lemma fillActive_Inr:
  "fillActive s mx i index result = Inr r \<Longrightarrow>
   index + length (filter (\<lambda>j. isActive (listings s j)) [i..<Suc mx]) \<le> length result \<Longrightarrow>
   r = take index result
       @ map (listings s) (filter (\<lambda>j. isActive (listings s j)) [i..<Suc mx])
       @ drop (index + length (filter (\<lambda>j. isActive (listings s j)) [i..<Suc mx])) result"
proof (induction s mx i index result rule: fillActive.induct)
  case (1 s mx i index result)
  let ?P = "\<lambda>j. isActive (listings s j)"
  note step = "1.prems"(1) [unfolded fillActive.simps [of s mx i index result]]
  show ?case
  proof (cases "i \<le> mx")
    case False
    with step "1.prems"(2) show ?thesis by (simp del: upt_Suc)
  next
    case True
    then have cons: "[i..<Suc mx] = i # [Suc i..<Suc mx]"
      by (simp add: upt_conv_Cons del: upt_Suc)
    from step True obtain result' index' where
      c: "(if isActive (listings s i)
           then (if index < length result
                 then (case checked_add index 1 of
                         Inl e \<Rightarrow> Inl e
                       | Inr index' \<Rightarrow> Inr (result[index := listings s i], index'))
                 else Inl IndexOutOfBounds)
           else Inr (result, index)) = Inr (result', index')"
      by (auto split: sum.splits)
    from step True c obtain i' where i': "checked_add i 1 = Inr i'"
      by (auto split: sum.splits)
    from step True c i' have rec: "fillActive s mx i' index' result' = Inr r"
      by simp
    have iv: "i' = Suc i" using i' by (simp add: checked_add_Inr)
    show ?thesis
    proof (cases "isActive (listings s i)")
      case False
      with c have same: "result' = result" "index' = index" by simp_all
      have "r = take index result @ map (listings s) (filter ?P [i'..<Suc mx])
                @ drop (index + length (filter ?P [i'..<Suc mx])) result"
        using "1.IH" [OF True c refl i' rec] "1.prems"(2) False
        by (simp add: same cons iv del: upt_Suc)
      then show ?thesis using False by (simp add: cons iv del: upt_Suc)
    next
      case act: True
      with c have inb: "index < length result"
        by (auto split: if_splits)
      with c act have upd: "result' = result[index := listings s i]" "index' = Suc index"
        by (auto simp: checked_add_Inr split: sum.splits)
      have room: "index' + length (filter ?P [i'..<Suc mx]) \<le> length result'"
        using "1.prems"(2) act by (simp add: upd cons iv del: upt_Suc)
      have "r = take index' result' @ map (listings s) (filter ?P [i'..<Suc mx])
                @ drop (index' + length (filter ?P [i'..<Suc mx])) result'"
        using "1.IH" [OF True c refl i' rec room] .
      moreover have "take index' result' = take index result @ [listings s i]"
        using inb by (simp add: upd take_Suc_conv_app_nth)
      moreover have "drop (index' + length (filter ?P [i'..<Suc mx])) result'
                       = drop (Suc index + length (filter ?P [i'..<Suc mx])) result"
        by (simp add: upd)
      ultimately show ?thesis using act by (simp add: cons iv del: upt_Suc)
    qed
  qed
qed

lemma countActive_total:
  "Suc mx < 2 ^ 256 \<Longrightarrow> count + (Suc mx - i) < 2 ^ 256 \<Longrightarrow>
   \<exists>r. countActive s mx i count = Inr r"
proof (induction s mx i count rule: countActive.induct)
  case (1 s mx i count)
  show ?case
  proof (cases "i \<le> mx")
    case False
    then show ?thesis by (subst countActive.simps) simp
  next
    case True
    let ?c = "if isActive (listings s i) then count + 1 else count"
    have small: "count + 1 < 2 ^ 256" "Suc i < 2 ^ 256"
      using True "1.prems" by arith+
    have next_ok: "?c + (Suc mx - Suc i) < 2 ^ 256"
      using True "1.prems"(2) by (auto split: if_splits)
    have c: "(if isActive (listings s i) then checked_add count 1 else Inr count) = Inr ?c"
      using small by (simp add: checked_add_def)
    have i': "checked_add i 1 = Inr (Suc i)"
      using small by (simp add: checked_add_def)
    have "\<exists>r. countActive s mx (Suc i) ?c = Inr r"
      using "1.prems"(1) next_ok by (rule "1.IH" [OF True c i'])
    then show ?thesis
      using True c i' by (subst countActive.simps) simp
  qed
qed

lemma fillActive_total:
  "Suc mx < 2 ^ 256 \<Longrightarrow> length result < 2 ^ 256 \<Longrightarrow>
   index + length (filter (\<lambda>j. isActive (listings s j)) [i..<Suc mx]) \<le> length result \<Longrightarrow>
   \<exists>r. fillActive s mx i index result = Inr r"
proof (induction s mx i index result rule: fillActive.induct)
  case (1 s mx i index result)
  let ?P = "\<lambda>j. isActive (listings s j)"
  show ?case
  proof (cases "i \<le> mx")
    case False
    then show ?thesis by (subst fillActive.simps) simp
  next
    case True
    then have cons: "[i..<Suc mx] = i # [Suc i..<Suc mx]"
      by (simp add: upt_conv_Cons del: upt_Suc)
    let ?res = "if isActive (listings s i) then result[index := listings s i] else result"
    let ?idx = "if isActive (listings s i) then Suc index else index"
    have small: "Suc i < 2 ^ 256" using True "1.prems"(1) by arith
    have room: "isActive (listings s i) \<Longrightarrow> index < length result"
      using "1.prems"(3) by (simp add: cons del: upt_Suc)
    then have small_idx: "isActive (listings s i) \<Longrightarrow> index + 1 < 2 ^ 256"
      using "1.prems"(2) by fastforce
    have c: "(if isActive (listings s i)
           then (if index < length result
                 then (case checked_add index 1 of
                         Inl e \<Rightarrow> Inl e
                       | Inr index' \<Rightarrow> Inr (result[index := listings s i], index'))
                 else Inl IndexOutOfBounds)
           else Inr (result, index)) = Inr (?res, ?idx)"
      using room small_idx by (simp add: checked_add_def)
    have i': "checked_add i 1 = Inr (Suc i)"
      using small by (simp add: checked_add_def)
    have len: "length ?res < 2 ^ 256" using "1.prems"(2) by simp
    have fits: "?idx + length (filter ?P [Suc i..<Suc mx]) \<le> length ?res"
      using "1.prems"(3) by (auto simp: cons simp del: upt_Suc split: if_splits)
    have "\<exists>r. fillActive s mx (Suc i) ?idx ?res = Inr r"
      using "1.prems"(1) len fits by (rule "1.IH" [OF True c refl i'])
    then show ?thesis
      using True c i' by (subst fillActive.simps) simp
  qed
qed

lemma getActiveListings_Inr_D:
  assumes "getActiveListings s offset limit = Inr result"
  shows "result = map (listings s) (filter (\<lambda>i. isActive (listings s i))
                    [offset + 1..<Suc (min (offset + limit) (listingCounter s))])"
proof -
  let ?mx = "min (offset + limit) (listingCounter s)"
  let ?ids = "filter (\<lambda>i. isActive (listings s i)) [offset + 1..<Suc ?mx]"
  from assms obtain upper where u: "checked_add offset limit = Inr upper"
    by (auto simp: getActiveListings_def split: sum.splits)
  then have upper: "upper = offset + limit" by (simp add: checked_add_Inr)
  have mx: "(if upper > listingCounter s then listingCounter s else upper) = ?mx"
    by (simp add: upper min_def)
  from assms u obtain first where f: "checked_add offset 1 = Inr first"
    by (auto simp: getActiveListings_def Let_def split: sum.splits)
  then have first: "first = offset + 1" by (simp add: checked_add_Inr)
  from assms u f obtain count where c: "countActive s ?mx first 0 = Inr count"
    by (auto simp: getActiveListings_def Let_def mx split: sum.splits)
  from assms u f c have fill:
    "fillActive s ?mx first 0 (replicate count zeroListing) = Inr result"
    by (simp add: getActiveListings_def Let_def mx)
  have count: "count = length ?ids"
    using countActive_Inr [OF c] by (simp add: first del: upt_Suc)
  have "result = take 0 (replicate count zeroListing) @ map (listings s) ?ids
                 @ drop (0 + length ?ids) (replicate count zeroListing)"
    using fill unfolding first
    by (rule fillActive_Inr) (simp add: count del: upt_Suc)
  then show ?thesis by (simp add: count del: upt_Suc)
qed

lemma getActiveListings_total:
  assumes "offset + limit < 2 ^ 256 - 1"
  shows "\<exists>result. getActiveListings s offset limit = Inr result"
proof -
  let ?mx = "min (offset + limit) (listingCounter s)"
  let ?ids = "filter (\<lambda>i. isActive (listings s i)) [offset + 1..<Suc ?mx]"
  have u: "checked_add offset limit = Inr (offset + limit)"
    using assms by (simp add: checked_add_def)
  have mx: "(if offset + limit > listingCounter s then listingCounter s else offset + limit)
              = ?mx"
    by (simp add: min_def)
  have f: "checked_add offset 1 = Inr (offset + 1)"
    using assms by (simp add: checked_add_def)
  have bound: "Suc ?mx < 2 ^ 256" using assms by simp
  have "0 + (Suc ?mx - (offset + 1)) < (2::nat) ^ 256" using bound by arith
  with bound obtain count where c: "countActive s ?mx (offset + 1) 0 = Inr count"
    using countActive_total by blast
  have count: "count = length ?ids"
    using countActive_Inr [OF c] by (simp del: upt_Suc)
  have "length ?ids \<le> length [offset + 1..<Suc ?mx]" by (rule length_filter_le)
  also have "\<dots> \<le> Suc ?mx" by (simp del: upt_Suc)
  finally have small: "length (replicate count zeroListing) < 2 ^ 256"
    using bound by (simp add: count del: upt_Suc)
  have fits: "0 + length ?ids \<le> length (replicate count zeroListing)"
    by (simp add: count del: upt_Suc)
  from fillActive_total [OF bound small fits] obtain result where
    "fillActive s ?mx (offset + 1) 0 (replicate count zeroListing) = Inr result" ..
  then have "getActiveListings s offset limit = Inr result"
    using u f c by (simp add: getActiveListings_def Let_def mx)
  then show ?thesis ..
qed

text \<open>
  Claim C10. Whatever getActiveListings returns holds only active listings, at most
  \<open>limit\<close> of them: it is the list of the listings that are active among the ids
  \<open>offset + 1, \<dots>, min (offset + limit) listingCounter\<close>, in the order of the ids, and it is
  empty when \<open>offset \<ge> listingCounter\<close>. The call returns whenever \<open>offset + limit\<close> stays
  below the largest \<open>uint256\<close>; beyond that the checked additions abort it.
\<close>

theorem getActiveListings_page:
  "(getActiveListings s offset limit = Inr result \<longrightarrow>
      (\<forall>x \<in> set result. isActive x) \<and> length result \<le> limit
      \<and> result = map (listings s) (filter (\<lambda>i. isActive (listings s i))
                    [offset + 1..<Suc (min (offset + limit) (listingCounter s))])
      \<and> (listingCounter s \<le> offset \<longrightarrow> result = []))
   \<and> (offset + limit < 2 ^ 256 - 1 \<longrightarrow>
        (\<exists>page. getActiveListings s offset limit = Inr page)
        \<and> (listingCounter s \<le> offset \<longrightarrow> getActiveListings s offset limit = Inr []))"
proof -
  let ?mx = "min (offset + limit) (listingCounter s)"
  let ?ids = "filter (\<lambda>i. isActive (listings s i)) [offset + 1..<Suc ?mx]"
  have len: "length (map (listings s) ?ids) \<le> limit"
  proof -
    have "length ?ids \<le> length [offset + 1..<Suc ?mx]" by (rule length_filter_le)
    also have "\<dots> = Suc ?mx - (offset + 1)" by (simp del: upt_Suc)
    also have "\<dots> \<le> limit" by simp
    finally show ?thesis by simp
  qed
  have act: "\<forall>x \<in> set (map (listings s) ?ids). isActive x" by auto
  have empty: "map (listings s) ?ids = []" if "listingCounter s \<le> offset"
    using that by (simp del: upt_Suc)
  have partial: "(\<forall>x \<in> set result. isActive x) \<and> length result \<le> limit
      \<and> result = map (listings s) ?ids \<and> (listingCounter s \<le> offset \<longrightarrow> result = [])"
    if r: "getActiveListings s offset limit = Inr result"
  proof -
    have eq: "result = map (listings s) ?ids"
      by (rule getActiveListings_Inr_D [OF r])
    show ?thesis
      unfolding eq
    proof (intro conjI impI)
      show "\<forall>x \<in> set (map (listings s) ?ids). isActive x" by (rule act)
      show "length (map (listings s) ?ids) \<le> limit" by (rule len)
      show "map (listings s) ?ids = map (listings s) ?ids" by (rule refl)
      show "map (listings s) ?ids = []" if "listingCounter s \<le> offset"
        using that by (rule empty)
    qed
  qed
  have total: "(\<exists>page. getActiveListings s offset limit = Inr page)
        \<and> (listingCounter s \<le> offset \<longrightarrow> getActiveListings s offset limit = Inr [])"
    if "offset + limit < 2 ^ 256 - 1"
  proof -
    from getActiveListings_total [OF that] obtain page where
      p: "getActiveListings s offset limit = Inr page" ..
    have eq: "page = map (listings s) ?ids"
      by (rule getActiveListings_Inr_D [OF p])
    have "getActiveListings s offset limit = Inr []" if "listingCounter s \<le> offset"
      using p empty [OF that] unfolding eq by (rule back_subst)
    with p show ?thesis by (intro conjI exI impI)
  qed
  show ?thesis
  proof (intro conjI impI)
    assume r: "getActiveListings s offset limit = Inr result"
    show "\<forall>x \<in> set result. isActive x"
      using partial [OF r] by (rule conjunct1)
    show "length result \<le> limit"
      using partial [OF r, THEN conjunct2] by (rule conjunct1)
    show "result = map (listings s) ?ids"
      using partial [OF r, THEN conjunct2, THEN conjunct2] by (rule conjunct1)
    show "result = []" if "listingCounter s \<le> offset"
      using partial [OF r, THEN conjunct2, THEN conjunct2, THEN conjunct2] that by (rule mp)
  next
    assume b: "offset + limit < 2 ^ 256 - 1"
    show "\<exists>page. getActiveListings s offset limit = Inr page"
      using total [OF b] by (rule conjunct1)
    show "getActiveListings s offset limit = Inr []" if "listingCounter s \<le> offset"
      using total [OF b, THEN conjunct2] that by (rule mp)
  qed
qed

theorem getActiveListings_page_witness:
  "getActiveListings scenario_page 0 10
     = Inr [listings scenario_page 1, listings scenario_page 3]
   \<and> getActiveListings scenario_page 1 1 = Inr []
   \<and> getActiveListings scenario_page 3 10 = Inr []"
proof -
  note all = getActiveListings_page [where s = scenario_page and offset = 0 and limit = 10]
  note one = getActiveListings_page [where s = scenario_page and offset = 1 and limit = 1]
  note past = getActiveListings_page [where s = scenario_page and offset = 3 and limit = 10]
  have ids: "[0 + 1..<Suc (min (0 + 10) (listingCounter scenario_page))] = [1, 2, 3]"
    "[1 + 1..<Suc (min (1 + 1) (listingCounter scenario_page))] = [2]"
    by (simp_all add: scenario_page_fields upt_conv_Cons)
  have small: "(0::nat) + 10 < 2 ^ 256 - 1" "(1::nat) + 1 < 2 ^ 256 - 1"
    "(3::nat) + 10 < 2 ^ 256 - 1"
    by simp_all
  have past_end: "listingCounter scenario_page \<le> 3"
    by (simp add: scenario_page_fields)
  from all [THEN conjunct2, THEN mp, OF small(1), THEN conjunct1]
  obtain page where p: "getActiveListings scenario_page 0 10 = Inr page" ..
  from getActiveListings_page [where s = scenario_page and offset = 0 and limit = 10
      and result = page, THEN conjunct1, THEN mp, OF p]
  have "page = map (listings scenario_page)
      (filter (\<lambda>i. isActive (listings scenario_page i))
         [0 + 1..<Suc (min (0 + 10) (listingCounter scenario_page))])"
    by (elim conjE)
  then have a: "page = [listings scenario_page 1, listings scenario_page 3]"
    unfolding ids using scenario_page_fields by simp
  from one [THEN conjunct2, THEN mp, OF small(2), THEN conjunct1]
  obtain page1 where p1: "getActiveListings scenario_page 1 1 = Inr page1" ..
  from getActiveListings_page [where s = scenario_page and offset = 1 and limit = 1
      and result = page1, THEN conjunct1, THEN mp, OF p1]
  have "page1 = map (listings scenario_page)
      (filter (\<lambda>i. isActive (listings scenario_page i))
         [1 + 1..<Suc (min (1 + 1) (listingCounter scenario_page))])"
    by (elim conjE)
  then have b: "page1 = []"
    unfolding ids using scenario_page_fields by simp
  from past [THEN conjunct2, THEN mp, OF small(3), THEN conjunct2, THEN mp, OF past_end]
  have c: "getActiveListings scenario_page 3 10 = Inr []" .
  from p a p1 b c show ?thesis by simp
qed

subsection \<open>The accounting invariant (first text)\<close>

lemma rentedUnits_frame:
  assumes "sessions s' = sessions s" and "sessionCounter s' = sessionCounter s"
  shows "rentedUnits s' lid = rentedUnits s lid"
  unfolding rentedUnits_def assms by (rule refl)

lemma rentedUnits_new_session:
  assumes "sessions s' = (sessions s)(Suc (sessionCounter s) := session)"
    and "sessionCounter s' = Suc (sessionCounter s)"
  shows "rentedUnits s' lid = rentedUnits s lid + unitsOut session lid"
proof -
  let ?c = "sessionCounter s"
  have same: "map (\<lambda>i. unitsOut (sessions s' i) lid) [1..<Suc ?c]
            = map (\<lambda>i. unitsOut (sessions s i) lid) [1..<Suc ?c]"
    by (rule map_cong) (auto simp: assms(1))
  have split: "[1..<Suc (Suc ?c)] = [1..<Suc ?c] @ [Suc ?c]" by simp
  have "rentedUnits s' lid
          = sum_list (map (\<lambda>i. unitsOut (sessions s' i) lid) [1..<Suc ?c])
            + unitsOut (sessions s' (Suc ?c)) lid"
    unfolding rentedUnits_def assms(2) split by simp
  also have "\<dots> = rentedUnits s lid + unitsOut session lid"
    unfolding same rentedUnits_def by (simp add: assms(1))
  finally show ?thesis .
qed

lemma rentedUnits_as_sum:
  "rentedUnits s lid = (\<Sum>i \<in> {1..sessionCounter s}. unitsOut (sessions s i) lid)"
proof -
  have "set [1..<Suc (sessionCounter s)] = {1..sessionCounter s}" by auto
  then show ?thesis
    unfolding rentedUnits_def by (simp add: interv_sum_list_conv_sum_set_nat del: upt_Suc)
qed

lemma rentedUnits_closed_session:
  assumes "sessions s' = (sessions s)(sid := (sessions s sid)\<lparr>sessionIsActive := False\<rparr>)"
    and "sessionCounter s' = sessionCounter s"
    and "sessionIsActive (sessions s sid)" and "1 \<le> sid" and "sid \<le> sessionCounter s"
  shows "rentedUnits s lid =
           rentedUnits s' lid
           + (if listingId (sessions s sid) = lid then units (sessions s sid) else 0)"
proof -
  let ?A = "{1..sessionCounter s}"
  have mem: "sid \<in> ?A" using assms(4,5) by simp
  have rest: "(\<Sum>i \<in> ?A - {sid}. unitsOut (sessions s' i) lid)
                = (\<Sum>i \<in> ?A - {sid}. unitsOut (sessions s i) lid)"
    by (rule sum.cong) (auto simp: assms(1))
  have "rentedUnits s lid
          = unitsOut (sessions s sid) lid + (\<Sum>i \<in> ?A - {sid}. unitsOut (sessions s i) lid)"
    unfolding rentedUnits_as_sum using mem by (intro sum.remove) auto
  moreover have "rentedUnits s' lid
          = unitsOut (sessions s' sid) lid
            + (\<Sum>i \<in> ?A - {sid}. unitsOut (sessions s' i) lid)"
    unfolding rentedUnits_as_sum assms(2) using mem by (intro sum.remove) auto
  moreover have "unitsOut (sessions s' sid) lid = 0"
    by (simp add: assms(1) unitsOut_def)
  moreover have "unitsOut (sessions s sid) lid
                   = (if listingId (sessions s sid) = lid then units (sessions s sid) else 0)"
    using assms(3) by (simp add: unitsOut_def)
  ultimately show ?thesis using rest by simp
qed

lemma accounting_invD:
  assumes "accounting_inv s"
  shows "availableUnits (listings s lid) \<le> totalUnits (listings s lid)"
    and "isActive (listings s lid) \<Longrightarrow>
           totalUnits (listings s lid) - availableUnits (listings s lid) = rentedUnits s lid"
    and "rentedUnits s lid \<le> totalUnits (listings s lid) - availableUnits (listings s lid)"
    and "listingCounter s < lid \<Longrightarrow> listings s lid = zeroListing"
    and "sessionIsActive (sessions s sid) \<Longrightarrow> 1 \<le> sid"
    and "sessionIsActive (sessions s sid) \<Longrightarrow> sid \<le> sessionCounter s"
  using assms unfolding accounting_inv_def by blast+

lemma accounting_invI:
  assumes "\<And>lid. availableUnits (listings s lid) \<le> totalUnits (listings s lid)"
    and "\<And>lid. isActive (listings s lid) \<Longrightarrow>
           totalUnits (listings s lid) - availableUnits (listings s lid) = rentedUnits s lid"
    and "\<And>lid. rentedUnits s lid
                 \<le> totalUnits (listings s lid) - availableUnits (listings s lid)"
    and "\<And>lid. listingCounter s < lid \<Longrightarrow> listings s lid = zeroListing"
    and "\<And>sid. sessionIsActive (sessions s sid) \<Longrightarrow> 1 \<le> sid"
    and "\<And>sid. sessionIsActive (sessions s sid) \<Longrightarrow> sid \<le> sessionCounter s"
  shows "accounting_inv s"
  using assms unfolding accounting_inv_def by blast

lemma accounting_inv_frame:
  assumes "accounting_inv s"
    and "listings s' = listings s" and "sessions s' = sessions s"
    and "listingCounter s' = listingCounter s" and "sessionCounter s' = sessionCounter s"
  shows "accounting_inv s'"
  using assms(1) rentedUnits_frame [OF assms(3) assms(5)]
  unfolding accounting_inv_def assms(2-5) by simp

lemma accounting_inv_deployed:
  assumes "constructor selfAddr deployer token wallet fee bal appr eth refusing = Inr s"
  shows "accounting_inv s"
proof -
  from assms have s: "listings s = (\<lambda>i. zeroListing)" "sessions s = (\<lambda>i. zeroSession)"
      "sessionCounter s = 0" "listingCounter s = 0"
    by (auto simp: constructor_def split: if_splits)
  show ?thesis
    by (simp add: accounting_inv_def rentedUnits_def s zeroListing_def zeroSession_def)
qed

lemma accounting_inv_created:
  assumes inv: "accounting_inv s"
    and ok: "createListing s sender now tid price n minD maxD = Inr s'"
  shows "accounting_inv s'"
proof (rule accounting_invI)
  let ?new = "Suc (listingCounter s)"
  from ok have s': "listings s' = (listings s)(?new :=
                \<lparr>lender = sender, tokenId = tid, pricePerUnit = price,
                 availableUnits = n, totalUnits = n, minDuration = minD,
                 maxDuration = maxD, createdAt = now, isActive = True\<rparr>)"
      "sessions s' = sessions s" "sessionCounter s' = sessionCounter s"
      "listingCounter s' = ?new"
    by (simp_all add: createListing_Inr_iff)
  have rent: "rentedUnits s' lid = rentedUnits s lid" for lid
    using s'(2,3) by (rule rentedUnits_frame)
  have "listings s ?new = zeroListing"
    using inv by (rule accounting_invD(4)) simp
  with accounting_invD(3) [OF inv, of ?new] have none: "rentedUnits s ?new = 0"
    by (simp add: zeroListing_def)
  fix lid
  show "availableUnits (listings s' lid) \<le> totalUnits (listings s' lid)"
    using accounting_invD(1) [OF inv, of lid] by (simp add: s')
  show "totalUnits (listings s' lid) - availableUnits (listings s' lid) = rentedUnits s' lid"
    if "isActive (listings s' lid)"
    using accounting_invD(2) [OF inv, of lid] that none
    by (cases "lid = ?new") (simp_all add: s' rent)
  show "rentedUnits s' lid \<le> totalUnits (listings s' lid) - availableUnits (listings s' lid)"
    using accounting_invD(3) [OF inv, of lid] none
    by (cases "lid = ?new") (simp_all add: s' rent)
  show "listings s' lid = zeroListing" if "listingCounter s' < lid"
    using accounting_invD(4) [OF inv, of lid] that by (simp add: s')
  show "1 \<le> lid" if "sessionIsActive (sessions s' lid)"
    using accounting_invD(5) [OF inv, of lid] that by (simp add: s')
  show "lid \<le> sessionCounter s'" if "sessionIsActive (sessions s' lid)"
    using accounting_invD(6) [OF inv, of lid] that by (simp add: s')
qed

lemma updateListing_Inr_D:
  assumes "updateListing s sender lid newPrice newUnits newMinD newMaxD = Inr s'"
  shows "isActive (listings s lid)"
    and "availableUnits (listings s lid) \<le> totalUnits (listings s lid)"
    and "totalUnits (listings s lid) - availableUnits (listings s lid) \<le> newUnits"
    and "listings s' = (listings s)(lid :=
           (listings s lid)\<lparr>pricePerUnit := newPrice,
              availableUnits :=
                newUnits - (totalUnits (listings s lid) - availableUnits (listings s lid)),
              totalUnits := newUnits, minDuration := newMinD, maxDuration := newMaxD\<rparr>)"
    and "sessions s' = sessions s" and "sessionCounter s' = sessionCounter s"
    and "listingCounter s' = listingCounter s"
  using assms
  by (auto simp: updateListing_def Let_def checked_sub_def safeTransferFrom_def
           split: if_splits)

lemma accounting_inv_updated:
  assumes inv: "accounting_inv s"
    and ok: "updateListing s sender lid newPrice newUnits newMinD newMaxD = Inr s'"
  shows "accounting_inv s'"
proof (rule accounting_invI)
  note u = updateListing_Inr_D [OF ok]
  have rent: "rentedUnits s' l = rentedUnits s l" for l
    using u(5,6) by (rule rentedUnits_frame)
  have known: "lid \<le> listingCounter s"
  proof (rule ccontr)
    assume "\<not> lid \<le> listingCounter s"
    then have "listings s lid = zeroListing"
      using accounting_invD(4) [OF inv, of lid] by simp
    with u(1) show False by (simp add: zeroListing_def)
  qed
  have eq: "totalUnits (listings s lid) - availableUnits (listings s lid) = rentedUnits s lid"
    using inv u(1) by (rule accounting_invD(2))
  fix l
  show "availableUnits (listings s' l) \<le> totalUnits (listings s' l)"
    using accounting_invD(1) [OF inv, of l] by (simp add: u(4))
  show "totalUnits (listings s' l) - availableUnits (listings s' l) = rentedUnits s' l"
    if "isActive (listings s' l)"
    using accounting_invD(2) [OF inv, of l] that eq u(3)
    by (cases "l = lid") (simp_all add: u(4) rent)
  show "rentedUnits s' l \<le> totalUnits (listings s' l) - availableUnits (listings s' l)"
    using accounting_invD(3) [OF inv, of l] eq u(3)
    by (cases "l = lid") (simp_all add: u(4) rent)
  show "listings s' l = zeroListing" if "listingCounter s' < l"
    using accounting_invD(4) [OF inv, of l] that known by (simp add: u(4,7))
  show "1 \<le> l" if "sessionIsActive (sessions s' l)"
    using accounting_invD(5) [OF inv, of l] that by (simp add: u(5))
  show "l \<le> sessionCounter s'" if "sessionIsActive (sessions s' l)"
    using accounting_invD(6) [OF inv, of l] that by (simp add: u(5,6))
qed

lemma accounting_inv_cancelled:
  assumes inv: "accounting_inv s" and ok: "cancelListing s sender lid = Inr s'"
  shows "accounting_inv s'"
proof (rule accounting_invI)
  from ok have act: "isActive (listings s lid)"
    and s': "listings s' = (listings s)(lid := (listings s lid)\<lparr>isActive := False\<rparr>)"
      "sessions s' = sessions s" "sessionCounter s' = sessionCounter s"
      "listingCounter s' = listingCounter s"
    by (simp_all add: cancelListing_Inr_iff)
  have rent: "rentedUnits s' l = rentedUnits s l" for l
    using s'(2,3) by (rule rentedUnits_frame)
  have known: "listings s lid \<noteq> zeroListing"
    using act by (auto simp: zeroListing_def)
  fix l
  show "availableUnits (listings s' l) \<le> totalUnits (listings s' l)"
    using accounting_invD(1) [OF inv, of l] by (auto simp: s')
  show "totalUnits (listings s' l) - availableUnits (listings s' l) = rentedUnits s' l"
    if "isActive (listings s' l)"
    using accounting_invD(2) [OF inv, of l] that
    by (cases "l = lid") (simp_all add: s' rent)
  show "rentedUnits s' l \<le> totalUnits (listings s' l) - availableUnits (listings s' l)"
    using accounting_invD(3) [OF inv, of l] by (auto simp: s' rent)
  show "listings s' l = zeroListing" if "listingCounter s' < l"
    using accounting_invD(4) [OF inv, of l] that known
    by (cases "l = lid") (simp_all add: s')
  show "1 \<le> l" if "sessionIsActive (sessions s' l)"
    using accounting_invD(5) [OF inv, of l] that by (simp add: s')
  show "l \<le> sessionCounter s'" if "sessionIsActive (sessions s' l)"
    using accounting_invD(6) [OF inv, of l] that by (simp add: s')
qed

lemma accounting_inv_started:
  assumes inv: "accounting_inv s"
    and ok: "startSession s sender val now lid n duration = Inr s'"
  shows "accounting_inv s'"
proof (rule accounting_invI)
  let ?session = "\<lparr>borrower = sender, listingId = lid, units = n, startTime = now,
                    endTime = now + duration,
                    totalPaid = pricePerUnit (listings s lid) * n * duration,
                    sessionIsActive = True\<rparr>"
  from startSession_Inr_D(1) [OF ok] have act: "isActive (listings s lid)"
    and room: "n \<le> availableUnits (listings s lid)"
    by simp_all
  from startSession_Inr_D(2) [OF ok]
  have s': "listings s' = (listings s)(lid :=
              (listings s lid)\<lparr>availableUnits := availableUnits (listings s lid) - n\<rparr>)"
      "sessions s' = (sessions s)(Suc (sessionCounter s) := ?session)"
      "sessionCounter s' = Suc (sessionCounter s)"
      "listingCounter s' = listingCounter s"
    by auto
  have rent: "rentedUnits s' l = rentedUnits s l + (if l = lid then n else 0)" for l
    unfolding rentedUnits_new_session [OF s'(2,3)] by (auto simp: unitsOut_def)
  have known: "listings s lid \<noteq> zeroListing"
    using act by (auto simp: zeroListing_def)
  fix l
  show "availableUnits (listings s' l) \<le> totalUnits (listings s' l)"
    using accounting_invD(1) [OF inv, of l] by (auto simp: s')
  show "totalUnits (listings s' l) - availableUnits (listings s' l) = rentedUnits s' l"
    if "isActive (listings s' l)"
    using accounting_invD(1,2) [OF inv, of l] that room
    by (cases "l = lid") (simp_all add: s' rent)
  show "rentedUnits s' l \<le> totalUnits (listings s' l) - availableUnits (listings s' l)"
    using accounting_invD(1,3) [OF inv, of l] room
    by (cases "l = lid") (simp_all add: s' rent)
  show "listings s' l = zeroListing" if "listingCounter s' < l"
    using accounting_invD(4) [OF inv, of l] that known
    by (cases "l = lid") (simp_all add: s')
  show "1 \<le> l" if "sessionIsActive (sessions s' l)"
    using accounting_invD(5) [OF inv, of l] that
    by (cases "l = Suc (sessionCounter s)") (simp_all add: s')
  show "l \<le> sessionCounter s'" if "sessionIsActive (sessions s' l)"
    using accounting_invD(6) [OF inv, of l] that
    by (cases "l = Suc (sessionCounter s)") (simp_all add: s')
qed

lemma accounting_inv_ended:
  assumes inv: "accounting_inv s" and ok: "endSession s sender now sid = Inr s'"
  shows "accounting_inv s'"
proof (rule accounting_invI)
  let ?S = "sessions s sid"
  let ?k = "listingId ?S"
  from ok have open_session: "sessionIsActive ?S"
    and s': "sessions s' = (sessions s)(sid := ?S\<lparr>sessionIsActive := False\<rparr>)"
      "sessionCounter s' = sessionCounter s" "listingCounter s' = listingCounter s"
      "listings s' =
         (if isActive (listings s ?k)
          then (listings s)(?k := (listings s ?k)
                 \<lparr>availableUnits := availableUnits (listings s ?k) + units ?S\<rparr>)
          else listings s)"
    by (simp_all add: endSession_Inr_iff)
  have alloc: "1 \<le> sid" "sid \<le> sessionCounter s"
    using accounting_invD(5,6) [OF inv open_session] .
  have rent: "rentedUnits s l = rentedUnits s' l + (if ?k = l then units ?S else 0)" for l
    using s'(1,2) open_session alloc by (rule rentedUnits_closed_session)
  have known: "listings s ?k \<noteq> zeroListing" if "isActive (listings s ?k)"
    using that by (auto simp: zeroListing_def)
  fix l
  show "availableUnits (listings s' l) \<le> totalUnits (listings s' l)"
    using accounting_invD(1,2) [OF inv, of l] rent [of l]
    by (cases "l = ?k") (auto simp: s')
  show "totalUnits (listings s' l) - availableUnits (listings s' l) = rentedUnits s' l"
    if "isActive (listings s' l)"
    using accounting_invD(1,2) [OF inv, of l] rent [of l] that
    by (cases "l = ?k") (auto simp: s' split: if_splits)
  show "rentedUnits s' l \<le> totalUnits (listings s' l) - availableUnits (listings s' l)"
    using accounting_invD(1,2,3) [OF inv, of l] rent [of l]
    by (cases "l = ?k") (auto simp: s' split: if_splits)
  show "listings s' l = zeroListing" if "listingCounter s' < l"
    using accounting_invD(4) [OF inv, of l] that known
    by (cases "l = ?k") (auto simp: s' split: if_splits)
  show "1 \<le> l" if "sessionIsActive (sessions s' l)"
    using accounting_invD(5) [OF inv, of l] that
    by (cases "l = sid") (simp_all add: s')
  show "l \<le> sessionCounter s'" if "sessionIsActive (sessions s' l)"
    using accounting_invD(6) [OF inv, of l] that
    by (cases "l = sid") (simp_all add: s')
qed

lemma reachable_accounting_inv: "reachable s \<Longrightarrow> accounting_inv s"
proof (induction rule: reachable.induct)
  case (deployed selfAddr deployer token wallet fee bal appr eth refusing s)
  then show ?case by (rule accounting_inv_deployed)
next
  case (ledgers s bal appr eth refusing)
  then show ?case by (elim accounting_inv_frame) simp_all
next
  case (created s sender now tid price n minD maxD s')
  then show ?case by (elim accounting_inv_created)
next
  case (updated s sender lid newPrice newUnits newMinD newMaxD s')
  then show ?case by (elim accounting_inv_updated)
next
  case (cancelled s sender lid s')
  then show ?case by (elim accounting_inv_cancelled)
next
  case (started s sender val now lid n duration s')
  then show ?case by (elim accounting_inv_started)
next
  case (ended s sender now sid s')
  then show ?case by (elim accounting_inv_ended)
next
  case (fee_updated s sender newFee s')
  then show ?case
    by (elim accounting_inv_frame) (auto simp: updatePlatformFee_def split: if_splits)
next
  case (wallet_updated s sender newWallet s')
  then show ?case
    by (elim accounting_inv_frame) (auto simp: updatePlatformWallet_def split: if_splits)
next
  case (limits_updated s sender lo hi s')
  then show ?case
    by (elim accounting_inv_frame)
       (auto simp: updateRentalDurationLimits_def split: if_splits)
next
  case (pause_set s sender s')
  then show ?case by (elim accounting_inv_frame) (auto simp: pause_def split: if_splits)
next
  case (pause_cleared s sender s')
  then show ?case by (elim accounting_inv_frame) (auto simp: unpause_def split: if_splits)
qed

text \<open>
  Claim C9, as amended. In every state reachable through the functions of the first text
  (createListing, updateListing, cancelListing, startSession, endSession and the
  administrative ones), every listing has \<open>0 \<le> availableUnits \<le> totalUnits\<close>; for an active
  listing \<open>totalUnits - availableUnits\<close> equals the sum of the units of the open sessions
  that reference it; for a cancelled listing the sum is at most \<open>totalUnits - availableUnits\<close>,
  since closing a session against a cancelled listing leaves its availableUnits as they
  are.
\<close>

theorem listing_accounting_reachable:
  "reachable s \<Longrightarrow>
     0 \<le> availableUnits (listings s lid)
     \<and> availableUnits (listings s lid) \<le> totalUnits (listings s lid)
     \<and> (isActive (listings s lid) \<longrightarrow>
          totalUnits (listings s lid) - availableUnits (listings s lid) = rentedUnits s lid)
     \<and> rentedUnits s lid \<le> totalUnits (listings s lid) - availableUnits (listings s lid)"
proof -
  assume "reachable s"
  then have inv: "accounting_inv s" by (rule reachable_accounting_inv)
  show ?thesis
    using accounting_invD(1,3) [OF inv, of lid] accounting_invD(2) [OF inv, of lid]
    by simp
qed

theorem listing_accounting_reachable_witness:
  "reachable scenario_rented
   \<and> isActive (listings scenario_rented 1)
   \<and> availableUnits (listings scenario_rented 1) = 8
   \<and> totalUnits (listings scenario_rented 1) = 10
   \<and> rentedUnits scenario_rented 1 = 2"
proof -
  note inst = listing_accounting_reachable [OF scenario_rented_reachable, of 1]
  have a: "isActive (listings scenario_rented 1)"
    "availableUnits (listings scenario_rented 1) = 8"
    "totalUnits (listings scenario_rented 1) = 10"
    unfolding scenario_rented_fields by simp_all
  from inst a have "rentedUnits scenario_rented 1 = 2" by simp
  with a scenario_rented_reachable show ?thesis by simp
qed

text \<open>
  A reachable state in which the equality of the claim fails: the lender cancelled the
  listing while the session for 2 units was open, and the session was closed afterwards.
  The listing keeps \<open>totalUnits = 10\<close> and \<open>availableUnits = 8\<close>, and no session is open.
\<close>

theorem listing_accounting_cancelled_counterexample:
  "reachable scenario_closed
   \<and> totalUnits (listings scenario_closed 1) - availableUnits (listings scenario_closed 1) = 2
   \<and> rentedUnits scenario_closed 1 = 0
   \<and> totalUnits (listings scenario_closed 1) - availableUnits (listings scenario_closed 1)
       \<noteq> rentedUnits scenario_closed 1"
proof -
  have "rentedUnits scenario_closed 1 = 0"
    by (simp add: rentedUnits_def unitsOut_def scenario_closed_fields [unfolded One_nat_def])
  moreover have "totalUnits (listings scenario_closed 1)
                   - availableUnits (listings scenario_closed 1) = 2"
    unfolding scenario_closed_fields by simp
  ultimately show ?thesis using scenario_closed_reachable by simp
qed

end
